theory Spec2Isabelle
  imports Complex_Main "HOL-Library.Log_Nat"
begin

section \<open>JavaScript numbers\<close>

text \<open>
  Every number in \<^verbatim>\<open>src/utils/detect.js\<close> is a JavaScript Number, an IEEE 754 binary64
  value: a finite double (always a rational, given here by its value), one of the two
  infinities, or NaN. The two zeros are identified: the operations of the file that are
  modelled here (\<^verbatim>\<open>*\<close>, \<^verbatim>\<open>-\<close>, \<^verbatim>\<open>/\<close> by a matrix dimension, \<^verbatim>\<open>Math.max\<close>, \<^verbatim>\<open>indexOf\<close>,
  \<^verbatim>\<open>===\<close>) give results that differ at most in the sign of a zero when a zero's sign changes.
\<close>

datatype jsnum = NaN | PosInf | NegInf | Fin real

text \<open>
  \<open>ilog2 a\<close> is the binade of a positive \<open>a\<close>: the integer \<open>e\<close> with \<open>2^e \<le> a < 2^(e+1)\<close>.
\<close>

definition ilog2 :: "real \<Rightarrow> int" where
  "ilog2 a = (if 1 \<le> a then int (floorlog 2 (nat \<lfloor>a\<rfloor>)) - 1
              else - int (floorlog 2 (nat \<lceil>1 / a\<rceil> - 1)))"

definition pow2 :: "int \<Rightarrow> real" where
  "pow2 e = (if 0 \<le> e then 2 ^ nat e else 1 / 2 ^ nat (- e))"

definition round_half_even :: "real \<Rightarrow> int" where
  "round_half_even q =
     (let f = \<lfloor>q\<rfloor>; d = q - of_int f
      in if d < 1 / 2 then f else if 1 / 2 < d then f + 1 else if even f then f else f + 1)"

text \<open>
  Rounding of an exact result to the nearest value of a binary format with \<open>p\<close> significant
  bits and normal exponents \<open>emin .. emax\<close>, ties to even, with gradual underflow and
  overflow to an infinity: the rounding every IEEE 754 operation applies to its exact result.
\<close>

definition round_binary :: "nat \<Rightarrow> int \<Rightarrow> int \<Rightarrow> real \<Rightarrow> jsnum" where
  "round_binary p emin emax x =
     (if x = 0 then Fin 0
      else let e = max (ilog2 \<bar>x\<bar>) emin;
               ulp = pow2 (e - int p + 1);
               r = of_int (round_half_even (\<bar>x\<bar> / ulp)) * ulp
           in if pow2 (emax + 1) \<le> r then (if 0 < x then PosInf else NegInf)
              else Fin (sgn x * r))"

definition round_double :: "real \<Rightarrow> jsnum" where
  "round_double = round_binary 53 (- 1022) 1023"

text \<open>Storing a Number into a \<^verbatim>\<open>Float32Array\<close> rounds it to binary32.\<close>

fun fround :: "jsnum \<Rightarrow> jsnum" where
  "fround (Fin x) = round_binary 24 (- 126) 127 x"
| "fround v = v"

text \<open>The operator \<^verbatim>\<open>*\<close>.\<close>

fun js_mul :: "jsnum \<Rightarrow> jsnum \<Rightarrow> jsnum" where
  "js_mul (Fin x) (Fin y) = round_double (x * y)"
| "js_mul NaN _ = NaN"
| "js_mul _ NaN = NaN"
| "js_mul (Fin x) PosInf = (if x = 0 then NaN else if 0 < x then PosInf else NegInf)"
| "js_mul (Fin x) NegInf = (if x = 0 then NaN else if 0 < x then NegInf else PosInf)"
| "js_mul PosInf (Fin y) = (if y = 0 then NaN else if 0 < y then PosInf else NegInf)"
| "js_mul NegInf (Fin y) = (if y = 0 then NaN else if 0 < y then NegInf else PosInf)"
| "js_mul PosInf PosInf = PosInf"
| "js_mul PosInf NegInf = NegInf"
| "js_mul NegInf PosInf = NegInf"
| "js_mul NegInf NegInf = PosInf"

text \<open>The operator \<^verbatim>\<open>-\<close>.\<close>

fun js_sub :: "jsnum \<Rightarrow> jsnum \<Rightarrow> jsnum" where
  "js_sub (Fin x) (Fin y) = round_double (x - y)"
| "js_sub NaN _ = NaN"
| "js_sub _ NaN = NaN"
| "js_sub PosInf PosInf = NaN"
| "js_sub NegInf NegInf = NaN"
| "js_sub PosInf _ = PosInf"
| "js_sub NegInf _ = NegInf"
| "js_sub (Fin x) PosInf = NegInf"
| "js_sub (Fin x) NegInf = PosInf"

text \<open>
  The operator \<^verbatim>\<open>/\<close>. A zero divisor is the positive zero: the only division of the file
  divides by the row or column count of a matrix.
\<close>

fun js_div :: "jsnum \<Rightarrow> jsnum \<Rightarrow> jsnum" where
  "js_div (Fin x) (Fin y) =
     (if y = 0 then (if x = 0 then NaN else if 0 < x then PosInf else NegInf)
      else round_double (x / y))"
| "js_div NaN _ = NaN"
| "js_div _ NaN = NaN"
| "js_div (Fin x) PosInf = Fin 0"
| "js_div (Fin x) NegInf = Fin 0"
| "js_div PosInf (Fin y) = (if 0 \<le> y then PosInf else NegInf)"
| "js_div NegInf (Fin y) = (if 0 \<le> y then NegInf else PosInf)"
| "js_div PosInf PosInf = NaN"
| "js_div PosInf NegInf = NaN"
| "js_div NegInf PosInf = NaN"
| "js_div NegInf NegInf = NaN"

text \<open>The comparison \<^verbatim>\<open><\<close> and strict equality \<^verbatim>\<open>===\<close> on Numbers.\<close>

fun js_lt :: "jsnum \<Rightarrow> jsnum \<Rightarrow> bool" where
  "js_lt NaN _ = False"
| "js_lt _ NaN = False"
| "js_lt (Fin x) (Fin y) = (x < y)"
| "js_lt NegInf NegInf = False"
| "js_lt NegInf _ = True"
| "js_lt _ NegInf = False"
| "js_lt PosInf _ = False"
| "js_lt _ PosInf = True"

definition js_strict_eq :: "jsnum \<Rightarrow> jsnum \<Rightarrow> bool" where
  "js_strict_eq a b = (a \<noteq> NaN \<and> a = b)"

text \<open>
  \<^verbatim>\<open>Math.max(...xs)\<close>: starts from \<^verbatim>\<open>-Infinity\<close>, is NaN as soon as one argument is NaN,
  and otherwise keeps the largest argument.
\<close>

fun Math_max_from :: "jsnum \<Rightarrow> jsnum list \<Rightarrow> jsnum" where
  "Math_max_from highest [] = highest"
| "Math_max_from highest (x # xs) =
     (if x = NaN then NaN else Math_max_from (if js_lt highest x then x else highest) xs)"

definition Math_max :: "jsnum list \<Rightarrow> jsnum" where
  "Math_max xs = Math_max_from NegInf xs"

text \<open>
  \<^verbatim>\<open>xs.indexOf(v)\<close> on a typed array: the first index whose element is strictly equal to
  \<open>v\<close>, and \<open>-1\<close> when there is none.
\<close>

fun indexOf_from :: "int \<Rightarrow> jsnum list \<Rightarrow> jsnum \<Rightarrow> int" where
  "indexOf_from k [] v = - 1"
| "indexOf_from k (x # xs) v = (if js_strict_eq x v then k else indexOf_from (k + 1) xs v)"

definition indexOf :: "jsnum list \<Rightarrow> jsnum \<Rightarrow> int" where
  "indexOf xs v = indexOf_from 0 xs v"

text \<open>
  \<^verbatim>\<open>xs.slice(s, e)\<close> for integers \<open>0 \<le> s\<close> and \<open>0 \<le> e\<close>: both ends are clamped to the length,
  and the result is empty when \<open>e \<le> s\<close>. \<^verbatim>\<open>xs[i]\<close> beyond the end is \<^verbatim>\<open>undefined\<close>, which
  every arithmetic operator turns into NaN.
\<close>

definition slice :: "nat \<Rightarrow> nat \<Rightarrow> 'a list \<Rightarrow> 'a list" where
  "slice s e xs = take (e - s) (drop s xs)"

definition num_at :: "jsnum list \<Rightarrow> nat \<Rightarrow> jsnum" where
  "num_at xs i = (if i < length xs then xs ! i else NaN)"

section \<open>Tensors and the box decoder of detectImage\<close>

text \<open>
  An output tensor of the inference runtime: its \<^verbatim>\<open>dims\<close> and its flat \<^verbatim>\<open>data\<close>. Reading
  \<^verbatim>\<open>dims[i]\<close> beyond the end gives \<^verbatim>\<open>undefined\<close>, here \<open>None\<close>.
\<close>

record tensor =
  dims :: "nat list"
  data :: "jsnum list"

definition dim :: "tensor \<Rightarrow> nat \<Rightarrow> nat option" where
  "dim t i = (if i < length (dims t) then Some (dims t ! i) else None)"

record box =
  label :: int
  probability :: jsnum
  bounding :: "jsnum list"

text \<open>
  Line 48: \<^verbatim>\<open>selected.data.slice(idx * selected.dims[2], (idx + 1) * selected.dims[2])\<close>.
  With \<^verbatim>\<open>dims[2]\<close> undefined both bounds are NaN, which \<^verbatim>\<open>slice\<close> reads as 0.
\<close>

definition row_of :: "tensor \<Rightarrow> nat \<Rightarrow> jsnum list" where
  "row_of selected idx =
     (case dim selected 2 of
        None \<Rightarrow> slice 0 0 (data selected)
      | Some rowWidth \<Rightarrow> slice (idx * rowWidth) ((idx + 1) * rowWidth) (data selected))"

text \<open>Lines 49 to 65: the body of the loop, from one row to one box.\<close>

definition decode_row :: "jsnum list \<Rightarrow> jsnum \<Rightarrow> jsnum \<Rightarrow> box" where
  "decode_row row xRatio yRatio =
     (let bx = slice 0 4 row;
          scores = drop 4 row;
          score = Math_max scores;
          lbl = indexOf scores score;
          x = js_mul (js_sub (num_at bx 0) (js_mul (Fin (1 / 2)) (num_at bx 2))) xRatio;
          y = js_mul (js_sub (num_at bx 1) (js_mul (Fin (1 / 2)) (num_at bx 3))) yRatio;
          w = js_mul (num_at bx 2) xRatio;
          h = js_mul (num_at bx 3) yRatio
      in \<lparr>label = lbl, probability = score, bounding = [x, y, w, h]\<rparr>)"

text \<open>
  Lines 47 to 66: \<^verbatim>\<open>for (let idx = 0; idx < selected.dims[1]; idx++)\<close>. The comparison with
  an undefined \<^verbatim>\<open>dims[1]\<close> is false, so the loop body never runs then.
\<close>

function box_loop :: "tensor \<Rightarrow> jsnum \<Rightarrow> jsnum \<Rightarrow> nat \<Rightarrow> box list \<Rightarrow> box list" where
  "box_loop selected xRatio yRatio idx boxes =
     (case dim selected 1 of
        None \<Rightarrow> boxes
      | Some n \<Rightarrow>
          if idx < n
          then box_loop selected xRatio yRatio (idx + 1)
                 (boxes @ [decode_row (row_of selected idx) xRatio yRatio])
          else boxes)"
  by pat_completeness auto
termination
  by (relation "measure (\<lambda>(selected, xRatio, yRatio, idx, boxes).
        (case dim selected 1 of None \<Rightarrow> 0 | Some n \<Rightarrow> n - idx))") auto

definition detectImage_boxes :: "tensor \<Rightarrow> jsnum \<Rightarrow> jsnum \<Rightarrow> box list" where
  "detectImage_boxes selected xRatio yRatio = box_loop selected xRatio yRatio 0 []"

text \<open>Two concrete outputs of the postprocessing stage, used to run the decoder.\<close>

definition example_selected :: tensor where
  "example_selected =
     \<lparr>dims = [1, 2, 6],
      data = [Fin 7, Fin 8, Fin 9, Fin 10, Fin (1 / 4), Fin (3 / 4),
              Fin 100, Fin 50, Fin 40, Fin 20, Fin (1 / 2), Fin (1 / 2)]\<rparr>"

definition bare_selected :: tensor where
  "bare_selected = \<lparr>dims = [1, 1, 4], data = [Fin 10, Fin 20, Fin 4, Fin 6]\<rparr>"

text \<open>
  What the specification asks of a decoded label and probability: the label is the first
  index at which the maximum class score occurs, and the probability is that score.
\<close>

definition first_argmax :: "jsnum list \<Rightarrow> int \<Rightarrow> jsnum \<Rightarrow> bool" where
  "first_argmax scores lbl p \<longleftrightarrow>
     0 \<le> lbl \<and> nat lbl < length scores \<and> scores ! nat lbl = p \<and>
     (\<forall>s \<in> set scores. \<not> js_lt p s) \<and>
     (\<forall>s \<in> set (take (nat lbl) scores). s \<noteq> p)"

text \<open>Outputs with a NaN score, and with rows that hold no score at all.\<close>

definition nan_selected :: tensor where
  "nan_selected = \<lparr>dims = [1, 1, 6], data = [Fin 10, Fin 20, Fin 4, Fin 6, NaN, Fin (1 / 2)]\<rparr>"

definition scoreless_selected :: tensor where
  "scoreless_selected =
     \<lparr>dims = [1, 2, 4], data = [Fin 1, Fin 2, Fin 3, Fin 4, Fin 5, Fin 6, Fin 7, Fin 8]\<rparr>"

section \<open>The browser, the CV library and the inference runtime\<close>

text \<open>
  The file calls three libraries whose code is not part of the repository: OpenCV.js
  (\<^verbatim>\<open>cv\<close>), onnxruntime-web (\<^verbatim>\<open>Tensor\<close>, \<^verbatim>\<open>session.net\<close>, \<^verbatim>\<open>session.nms\<close>) and the DOM. Each call
  is modelled by its documented effect on sizes, pixels and native buffers; whether a
  call throws is left to a parameter \<open>rejects\<close>, so that every statement below holds for
  any behaviour of the libraries in that respect.
\<close>

type_synonym rgba = "nat \<times> nat \<times> nat \<times> nat"
type_synonym bgr = "nat \<times> nat \<times> nat"

text \<open>An image element or a canvas: its size and its pixel at a row and a column.\<close>

record source =
  src_width :: nat
  src_height :: nat
  src_pixel :: "nat \<Rightarrow> nat \<Rightarrow> rgba"

text \<open>A \<^verbatim>\<open>cv.Mat\<close>: a native buffer, named by its handle, with its rows of pixels.\<close>

record 'p mat =
  handle :: nat
  rows :: nat
  cols :: nat
  pixels :: "'p list list"

text \<open>
  The blob that \<^verbatim>\<open>cv.blobFromImage\<close> returns: a native buffer, described by the matrix it
  was computed from and the size it was resized to. Its numeric contents go to the
  network only and are not modelled.
\<close>

record blob =
  blob_handle :: nat
  blob_of :: "bgr list list"
  blob_width :: "nat option"
  blob_height :: "nat option"

record input_tensor =
  it_blob :: blob
  it_dims :: "nat list"

datatype lib_call =
    Imread nat nat
  | NewMat nat nat
  | NewEmptyMat
  | CvtColor nat nat
  | CopyMakeBorder nat nat nat nat nat nat
  | BlobFromImage nat nat "nat option" "nat option"
  | NewTensor "nat list"
  | NewConfigTensor

datatype failure = LibraryException lib_call | InferenceBackendError string

text \<open>
  What a run leaves behind, in order: native buffers allocated and deleted, calls of the
  two backend computations, calls of the renderer, the canvas cleared, a video frame
  drawn, a frame requested from the browser, and rejected promises that nobody handles.
\<close>

datatype action =
    Alloc nat
  | Delete nat
  | NetRun input_tensor
  | NmsRun tensor "jsnum list"
  | Render "box list"
  | ClearRect
  | DrawFrame nat nat
  | RequestFrame
  | Unhandled failure

record world =
  trace :: "action list"
  fresh :: nat
  scheduled :: nat

definition emit :: "action \<Rightarrow> world \<Rightarrow> world" where
  "emit a w = w\<lparr>trace := trace w @ [a]\<rparr>"

definition alloc :: "world \<Rightarrow> nat \<times> world" where
  "alloc w = (fresh w, (emit (Alloc (fresh w)) w)\<lparr>fresh := fresh w + 1\<rparr>)"

text \<open>A step either throws or returns a value, and changes the world in both cases.\<close>

type_synonym 'a step = "world \<Rightarrow> (failure + 'a) \<times> world"

definition return :: "'a \<Rightarrow> 'a step" where
  "return x w = (Inr x, w)"

definition bind :: "'a step \<Rightarrow> ('a \<Rightarrow> 'b step) \<Rightarrow> 'b step" where
  "bind m f w = (case m w of (Inl e, w') \<Rightarrow> (Inl e, w') | (Inr x, w') \<Rightarrow> f x w')"

definition guard :: "(lib_call \<Rightarrow> bool) \<Rightarrow> lib_call \<Rightarrow> unit step" where
  "guard rejects c w = (if rejects c then (Inl (LibraryException c), w) else (Inr (), w))"

text \<open>\<^verbatim>\<open>cv.imread(source)\<close>: a new four-channel matrix with the pixels of the source.\<close>

definition cv_imread :: "(lib_call \<Rightarrow> bool) \<Rightarrow> source \<Rightarrow> rgba mat step" where
  "cv_imread rejects source =
     bind (guard rejects (Imread (src_width source) (src_height source))) (\<lambda>_ w.
       let (h, w') = alloc w
       in (Inr \<lparr>handle = h, rows = src_height source, cols = src_width source,
                pixels = map (\<lambda>i. map (\<lambda>j. src_pixel source i j) [0..<src_width source])
                           [0..<src_height source]\<rparr>, w'))"

text \<open>
  \<^verbatim>\<open>new cv.Mat(rows, cols, cv.CV_8UC3)\<close> and \<^verbatim>\<open>new cv.Mat()\<close>: new buffers, whose pixels are
  not read before a later call has written them.
\<close>

definition cv_new_Mat :: "(lib_call \<Rightarrow> bool) \<Rightarrow> nat \<Rightarrow> nat \<Rightarrow> bgr mat step" where
  "cv_new_Mat rejects r c =
     bind (guard rejects (NewMat r c)) (\<lambda>_ w.
       let (h, w') = alloc w
       in (Inr \<lparr>handle = h, rows = r, cols = c, pixels = []\<rparr>, w'))"

definition cv_new_empty_Mat :: "(lib_call \<Rightarrow> bool) \<Rightarrow> bgr mat step" where
  "cv_new_empty_Mat rejects =
     bind (guard rejects NewEmptyMat) (\<lambda>_ w.
       let (h, w') = alloc w
       in (Inr \<lparr>handle = h, rows = 0, cols = 0, pixels = []\<rparr>, w'))"

text \<open>
  \<^verbatim>\<open>cv.cvtColor(src, dst, cv.COLOR_RGBA2BGR)\<close> writes into \<open>dst\<close> the pixels of \<open>src\<close> without
  their alpha channel and with red and blue exchanged.
\<close>

fun rgba2bgr :: "rgba \<Rightarrow> bgr" where
  "rgba2bgr (r, g, b, a) = (b, g, r)"

definition cv_cvtColor :: "(lib_call \<Rightarrow> bool) \<Rightarrow> rgba mat \<Rightarrow> bgr mat \<Rightarrow> bgr mat step" where
  "cv_cvtColor rejects src dst =
     bind (guard rejects (CvtColor (rows src) (cols src))) (\<lambda>_.
       return (dst\<lparr>rows := rows src, cols := cols src,
                    pixels := map (map rgba2bgr) (pixels src)\<rparr>))"

text \<open>
  \<^verbatim>\<open>cv.copyMakeBorder(src, dst, top, bottom, left, right, cv.BORDER_CONSTANT)\<close> writes into
  \<open>dst\<close> the pixels of \<open>src\<close> framed by the given numbers of rows and columns of
  the border value, which is zero in every channel when it is not given.
\<close>

definition cv_copyMakeBorder ::
  "(lib_call \<Rightarrow> bool) \<Rightarrow> bgr mat \<Rightarrow> bgr mat \<Rightarrow> nat \<Rightarrow> nat \<Rightarrow> nat \<Rightarrow> nat \<Rightarrow> bgr mat step" where
  "cv_copyMakeBorder rejects src dst padTop padBottom padLeft padRight =
     bind (guard rejects
             (CopyMakeBorder (rows src) (cols src) padTop padBottom padLeft padRight)) (\<lambda>_.
       let z = (0, 0, 0);
           c = padLeft + cols src + padRight
       in return (dst\<lparr>rows := padTop + rows src + padBottom, cols := c,
                       pixels := replicate padTop (replicate c z)
                         @ map (\<lambda>row. replicate padLeft z @ row @ replicate padRight z)
                             (pixels src)
                         @ replicate padBottom (replicate c z)\<rparr>))"

text \<open>
  \<^verbatim>\<open>cv.blobFromImage(padded, 1 / 255.0, new cv.Size(width, height), new cv.Scalar(0, 0, 0),
  true, false)\<close>: a new buffer, computed from \<open>padded\<close> resized to the given size.
\<close>

definition cv_blobFromImage ::
  "(lib_call \<Rightarrow> bool) \<Rightarrow> bgr mat \<Rightarrow> nat option \<Rightarrow> nat option \<Rightarrow> blob step" where
  "cv_blobFromImage rejects padded width height =
     bind (guard rejects (BlobFromImage (rows padded) (cols padded) width height)) (\<lambda>_ w.
       let (h, w') = alloc w
       in (Inr \<lparr>blob_handle = h, blob_of = pixels padded, blob_width = width,
                blob_height = height\<rparr>, w'))"

text \<open>\<^verbatim>\<open>m.delete()\<close> releases the native buffer of a matrix or of a blob.\<close>

definition delete :: "nat \<Rightarrow> unit step" where
  "delete h w = (Inr (), emit (Delete h) w)"

section \<open>preprocessing\<close>

text \<open>
  Lines 81 to 111. The row and column counts of a matrix are C integers, which a Number
  holds exactly; the two ratios are quotients of Numbers.
\<close>

definition preprocessing ::
  "(lib_call \<Rightarrow> bool) \<Rightarrow> source \<Rightarrow> nat option \<Rightarrow> nat option \<Rightarrow> (blob \<times> jsnum \<times> jsnum) step" where
  "preprocessing rejects source modelWidth modelHeight =
     bind (cv_imread rejects source) (\<lambda>mat.
     bind (cv_new_Mat rejects (rows mat) (cols mat)) (\<lambda>matC3_new.
     bind (cv_cvtColor rejects mat matC3_new) (\<lambda>matC3.
       let maxSize = max (rows matC3) (cols matC3);
           xPad = maxSize - cols matC3;
           xRatio = js_div (Fin (real maxSize)) (Fin (real (cols matC3)));
           yPad = maxSize - rows matC3;
           yRatio = js_div (Fin (real maxSize)) (Fin (real (rows matC3)))
       in
     bind (cv_new_empty_Mat rejects) (\<lambda>matPad_new.
     bind (cv_copyMakeBorder rejects matC3 matPad_new 0 yPad 0 xPad) (\<lambda>matPad.
     bind (cv_blobFromImage rejects matPad modelWidth modelHeight) (\<lambda>input.
     bind (delete (handle mat)) (\<lambda>_.
     bind (delete (handle matC3)) (\<lambda>_.
     bind (delete (handle matPad)) (\<lambda>_.
     return (input, xRatio, yRatio))))))))))"

section \<open>detectImage\<close>

text \<open>
  The arguments of detectImage other than the image, the canvas, the session and the
  callback. \<^verbatim>\<open>const [modelWidth, modelHeight] = inputShape.slice(2)\<close> reads the entries 2
  and 3 of the shape, each undefined when the shape is too short.
\<close>

record detect_args =
  topk :: jsnum
  iouThreshold :: jsnum
  scoreThreshold :: jsnum
  inputShape :: "nat list"

definition nth_opt :: "'a list \<Rightarrow> nat \<Rightarrow> 'a option" where
  "nth_opt xs i = (if i < length xs then Some (xs ! i) else None)"

text \<open>
  Lines 32 to 40: the two tensors. Their constructor is code of the inference runtime and
  may throw; the configuration is stored in a \<^verbatim>\<open>Float32Array\<close>.
\<close>

definition new_Tensor :: "(lib_call \<Rightarrow> bool) \<Rightarrow> blob \<Rightarrow> nat list \<Rightarrow> input_tensor step" where
  "new_Tensor rejects input shape =
     bind (guard rejects (NewTensor shape)) (\<lambda>_. return \<lparr>it_blob = input, it_dims = shape\<rparr>)"

definition new_config :: "(lib_call \<Rightarrow> bool) \<Rightarrow> detect_args \<Rightarrow> jsnum list step" where
  "new_config rejects args =
     bind (guard rejects NewConfigTensor) (\<lambda>_.
       return (map fround [topk args, iouThreshold args, scoreThreshold args]))"

text \<open>
  detectImage is an async function: it runs up to the \<^verbatim>\<open>await\<close> of line 41, is resumed
  with the output of the network and runs up to the \<^verbatim>\<open>await\<close> of line 42, and is resumed
  with the output of the postprocessing. What it keeps across the two suspensions:
\<close>

record frame_ctx =
  ctx_input :: blob
  ctx_xRatio :: jsnum
  ctx_yRatio :: jsnum
  ctx_tensor :: input_tensor
  ctx_config :: "jsnum list"

text \<open>Lines 27 to 41, up to the call \<^verbatim>\<open>session.net.run({images: tensor})\<close>.\<close>

definition detectImage_begin :: "(lib_call \<Rightarrow> bool) \<Rightarrow> source \<Rightarrow> detect_args \<Rightarrow> frame_ctx step" where
  "detectImage_begin rejects imageEl args =
     (let modelWidth = nth_opt (drop 2 (inputShape args)) 0;
          modelHeight = nth_opt (drop 2 (inputShape args)) 1
      in
     bind (preprocessing rejects imageEl modelWidth modelHeight) (\<lambda>(input, xRatio, yRatio).
     bind (new_Tensor rejects input (inputShape args)) (\<lambda>tensor.
     bind (new_config rejects args) (\<lambda>config w.
       (Inr \<lparr>ctx_input = input, ctx_xRatio = xRatio, ctx_yRatio = yRatio,
              ctx_tensor = tensor, ctx_config = config\<rparr>,
        emit (NetRun tensor) w)))))"

text \<open>Line 42, the call \<^verbatim>\<open>session.nms.run({detection: output0, config: config})\<close>.\<close>

definition detectImage_resume_net :: "frame_ctx \<Rightarrow> tensor \<Rightarrow> world \<Rightarrow> world" where
  "detectImage_resume_net ctx output0 w = emit (NmsRun output0 (ctx_config ctx)) w"

text \<open>
  Modelled from the spec: \<^verbatim>\<open>renderBoxes\<close> of \<^verbatim>\<open>src/utils/renderBox.js\<close>, which is not among the
  sources. The specification gives it the contract \<^verbatim>\<open>render(surface, Box[])\<close>, fire and
  forget, with nothing returned to the pipeline: here it records the boxes it is given.
\<close>

definition renderBoxes :: "box list \<Rightarrow> world \<Rightarrow> world" where
  "renderBoxes boxes w = emit (Render boxes) w"

text \<open>Lines 44 to 70: the loop, the renderer, the callback, and the release of the blob.\<close>

definition detectImage_resume_nms ::
  "frame_ctx \<Rightarrow> tensor \<Rightarrow> (world \<Rightarrow> world) \<Rightarrow> world \<Rightarrow> world" where
  "detectImage_resume_nms ctx selected callback w =
     (let boxes = detectImage_boxes selected (ctx_xRatio ctx) (ctx_yRatio ctx);
          w1 = renderBoxes boxes w;
          w2 = callback w1
      in emit (Delete (blob_handle (ctx_input ctx))) w2)"

text \<open>
  A session whose two computations settle at once: each either resolves with a tensor or
  rejects with a reason. With it detectImage runs from its call to the settlement of its
  promise.
\<close>

record session =
  net :: "input_tensor \<Rightarrow> string + tensor"
  nms :: "tensor \<Rightarrow> jsnum list \<Rightarrow> string + tensor"

definition detectImage ::
  "(lib_call \<Rightarrow> bool) \<Rightarrow> source \<Rightarrow> session \<Rightarrow> detect_args \<Rightarrow> (world \<Rightarrow> world) \<Rightarrow> unit step" where
  "detectImage rejects imageEl sess args callback =
     bind (detectImage_begin rejects imageEl args) (\<lambda>ctx w.
       case net sess (ctx_tensor ctx) of
         Inl reason \<Rightarrow> (Inl (InferenceBackendError reason), w)
       | Inr output0 \<Rightarrow>
           (let w1 = detectImage_resume_net ctx output0 w
            in case nms sess output0 (ctx_config ctx) of
                 Inl reason \<Rightarrow> (Inl (InferenceBackendError reason), w1)
               | Inr selected \<Rightarrow> (Inr (), detectImage_resume_nms ctx selected callback w1)))"

section \<open>captureVideo, detectFrame and detectVideo\<close>

text \<open>
  A video element at the time of a tick: its native size, its stream if it has one, and
  what \<^verbatim>\<open>drawImage(video, 0, 0, w, h)\<close> draws on a canvas of \<open>w\<close> by \<open>h\<close>.
\<close>

record video =
  videoWidth :: nat
  videoHeight :: nat
  srcObject :: "nat option"
  drawn :: "nat \<Rightarrow> nat \<Rightarrow> nat \<Rightarrow> nat \<Rightarrow> rgba"

text \<open>Lines 134 to 146; an absent \<open>scaleFactor\<close> is 1.\<close>

definition captureVideo :: "video \<Rightarrow> nat option \<Rightarrow> world \<Rightarrow> source \<times> world" where
  "captureVideo v scaleFactor w =
     (let s = (case scaleFactor of None \<Rightarrow> 1 | Some f \<Rightarrow> f);
          cw = videoWidth v * s;
          ch = videoHeight v * s
      in (\<lparr>src_width = cw, src_height = ch, src_pixel = drawn v cw ch\<rparr>,
          emit (DrawFrame cw ch) w))"

text \<open>Lines 148 to 169, with a session that settles at once.\<close>

definition detectFrame ::
  "(lib_call \<Rightarrow> bool) \<Rightarrow> video \<Rightarrow> session \<Rightarrow> detect_args \<Rightarrow> (world \<Rightarrow> world) \<Rightarrow> unit step" where
  "detectFrame rejects vidSource sess args callback w =
     (let (imageSource, w1) = captureVideo vidSource None w
      in detectImage rejects imageSource sess args callback w1)"

text \<open>
  The pump of detectVideo. Its state is the world and the invocations of detectImage that
  are suspended at one of their two \<^verbatim>\<open>await\<close>s, each with an inference in flight.
\<close>

datatype stage = AwaitNet | AwaitNms

record pump =
  pw :: world
  awaiting :: "(stage \<times> frame_ctx) list"

text \<open>The callback of line 195: \<^verbatim>\<open>requestAnimationFrame(detect)\<close>.\<close>

definition request_frame :: "world \<Rightarrow> world" where
  "request_frame w = (emit RequestFrame w)\<lparr>scheduled := scheduled w + 1\<rparr>"

text \<open>
  Lines 181 to 198, one call of \<open>detect\<close>. The call of detectFrame runs captureVideo and
  then detectImage up to its first \<^verbatim>\<open>await\<close>, where it leaves an inference in flight and
  returns its promise. That promise is neither awaited nor given a handler, so a
  rejection of it, at once or later, is an unhandled rejection.
\<close>

definition detect :: "(lib_call \<Rightarrow> bool) \<Rightarrow> detect_args \<Rightarrow> video \<Rightarrow> pump \<Rightarrow> pump" where
  "detect rejects args vidSource p =
     (if videoWidth vidSource = 0 \<and> srcObject vidSource = None
      then p\<lparr>pw := emit ClearRect (pw p)\<rparr>
      else
        let (imageSource, w1) = captureVideo vidSource None (pw p)
        in case detectImage_begin rejects imageSource args w1 of
             (Inl e, w2) \<Rightarrow> p\<lparr>pw := emit (Unhandled e) w2\<rparr>
           | (Inr ctx, w2) \<Rightarrow> p\<lparr>pw := w2, awaiting := awaiting p @ [(AwaitNet, ctx)]\<rparr>)"

text \<open>
  What can happen to a pump: the browser runs a requested animation frame, with the
  video as it is then, or the inference in flight of the \<open>i\<close>-th suspended invocation
  settles, with a tensor or with the reason of its rejection. An event that nothing
  waits for changes nothing.
\<close>

datatype event = AnimationFrame video | Settled nat "string + tensor"

definition remove_nth :: "nat \<Rightarrow> 'a list \<Rightarrow> 'a list" where
  "remove_nth i xs = take i xs @ drop (Suc i) xs"

definition settle :: "nat \<Rightarrow> string + tensor \<Rightarrow> pump \<Rightarrow> pump" where
  "settle i r p =
     (if length (awaiting p) \<le> i then p
      else
        let (st, ctx) = awaiting p ! i;
            others = remove_nth i (awaiting p)
        in case r of
             Inl reason \<Rightarrow>
               p\<lparr>pw := emit (Unhandled (InferenceBackendError reason)) (pw p),
                 awaiting := others\<rparr>
           | Inr t \<Rightarrow>
               (case st of
                  AwaitNet \<Rightarrow>
                    p\<lparr>pw := detectImage_resume_net ctx t (pw p),
                      awaiting := others @ [(AwaitNms, ctx)]\<rparr>
                | AwaitNms \<Rightarrow>
                    p\<lparr>pw := detectImage_resume_nms ctx t request_frame (pw p),
                      awaiting := others\<rparr>))"

definition pump_step :: "(lib_call \<Rightarrow> bool) \<Rightarrow> detect_args \<Rightarrow> event \<Rightarrow> pump \<Rightarrow> pump" where
  "pump_step rejects args ev p =
     (case ev of
        AnimationFrame v \<Rightarrow>
          if scheduled (pw p) = 0 then p
          else detect rejects args v (p\<lparr>pw := (pw p)\<lparr>scheduled := scheduled (pw p) - 1\<rparr>\<rparr>)
      | Settled i r \<Rightarrow> settle i r p)"

fun pump_run :: "(lib_call \<Rightarrow> bool) \<Rightarrow> detect_args \<Rightarrow> event list \<Rightarrow> pump \<Rightarrow> pump" where
  "pump_run rejects args [] p = p"
| "pump_run rejects args (ev # evs) p = pump_run rejects args evs (pump_step rejects args ev p)"

text \<open>Lines 171 to 201: detectVideo defines \<open>detect\<close> and calls it once.\<close>

definition new_world :: world where
  "new_world = \<lparr>trace = [], fresh = 0, scheduled = 0\<rparr>"

definition detectVideo :: "(lib_call \<Rightarrow> bool) \<Rightarrow> detect_args \<Rightarrow> video \<Rightarrow> pump" where
  "detectVideo rejects args vidSource =
     detect rejects args vidSource \<lparr>pw = new_world, awaiting = []\<rparr>"

section \<open>Notions used to state the properties\<close>

text \<open>The side of the padded square, and the padded matrix that the blob is computed from.\<close>

definition maxSize_of :: "source \<Rightarrow> nat" where
  "maxSize_of source = max (src_height source) (src_width source)"

definition padded_pixels :: "source \<Rightarrow> bgr list list" where
  "padded_pixels source =
     map (\<lambda>i. map (\<lambda>j. rgba2bgr (src_pixel source i j)) [0..<src_width source]
               @ replicate (maxSize_of source - src_width source) (0, 0, 0))
         [0..<src_height source]
     @ replicate (maxSize_of source - src_height source) (replicate (maxSize_of source) (0, 0, 0))"

text \<open>The world after \<open>k\<close> more native buffers have been allocated.\<close>

definition allocs :: "nat \<Rightarrow> world \<Rightarrow> world" where
  "allocs k w = w\<lparr>trace := trace w @ map Alloc [fresh w..<fresh w + k], fresh := fresh w + k\<rparr>"

text \<open>How often a native buffer has been released, and which buffers have been allocated.\<close>

definition releases :: "world \<Rightarrow> nat \<Rightarrow> nat" where
  "releases w h = count_list (trace w) (Delete h)"

text \<open>A library that never throws, and the ratios that preprocessing returns.\<close>

definition rejects_nothing :: "lib_call \<Rightarrow> bool" where
  "rejects_nothing c = False"

definition preprocessing_ratios :: "(lib_call \<Rightarrow> bool) \<Rightarrow> source \<Rightarrow> (jsnum \<times> jsnum) option" where
  "preprocessing_ratios rejects source =
     (case fst (preprocessing rejects source None None new_world) of
        Inl e \<Rightarrow> None
      | Inr (input, xRatio, yRatio) \<Rightarrow> Some (xRatio, yRatio))"

text \<open>Two sources: 3 pixels wide and 2 high, and 15 pixels wide and 11 high.\<close>

definition small_source :: source where
  "small_source = \<lparr>src_width = 3, src_height = 2, src_pixel = (\<lambda>i j. (i, j, 7, 255))\<rparr>"

definition wide_source :: source where
  "wide_source = \<lparr>src_width = 15, src_height = 11, src_pixel = (\<lambda>i j. (0, 0, 0, 255))\<rparr>"

text \<open>A source 0 pixels wide and 5 high, a session whose network rejects, and arguments.\<close>

definition empty_source :: source where
  "empty_source = \<lparr>src_width = 0, src_height = 5, src_pixel = (\<lambda>i j. (0, 0, 0, 255))\<rparr>"

definition failing_session :: session where
  "failing_session = \<lparr>net = (\<lambda>t. Inl ''out of memory''), nms = (\<lambda>t c. Inr t)\<rparr>"

definition example_session :: session where
  "example_session = \<lparr>net = (\<lambda>t. Inr example_selected), nms = (\<lambda>t c. Inr t)\<rparr>"

definition example_args :: detect_args where
  "example_args = \<lparr>topk = Fin 100, iouThreshold = Fin (45 / 100), scoreThreshold = Fin (1 / 4),
     inputShape = [1, 3, 640, 640]\<rparr>"

text \<open>The comparison \<^verbatim>\<open><=\<close> on Numbers.\<close>

definition js_le :: "jsnum \<Rightarrow> jsnum \<Rightarrow> bool" where
  "js_le a b = (js_lt a b \<or> js_strict_eq a b)"

text \<open>What detectImage keeps across its suspensions for the small source.\<close>

definition example_blob :: blob where
  "example_blob = \<lparr>blob_handle = 3, blob_of = padded_pixels small_source,
     blob_width = Some 640, blob_height = Some 640\<rparr>"

definition example_ctx :: frame_ctx where
  "example_ctx = \<lparr>ctx_input = example_blob, ctx_xRatio = Fin 1, ctx_yRatio = Fin (3 / 2),
     ctx_tensor = \<lparr>it_blob = example_blob, it_dims = [1, 3, 640, 640]\<rparr>,
     ctx_config = map fround [Fin 100, Fin (45 / 100), Fin (1 / 4)]\<rparr>"

text \<open>
  Every request of a frame in a trace comes directly after a call of the renderer.
\<close>

fun request_follows_render :: "action list \<Rightarrow> bool" where
  "request_follows_render [] = True"
| "request_follows_render (RequestFrame # rest) = False"
| "request_follows_render (Render boxes # RequestFrame # rest) = request_follows_render rest"
| "request_follows_render (a # rest) = request_follows_render rest"

text \<open>
  The invariant of the pump: a requested frame and the inferences in flight are at most
  one in all, and frames have been requested after calls of the renderer only.
\<close>

definition pump_ok :: "pump \<Rightarrow> bool" where
  "pump_ok p \<longleftrightarrow> length (awaiting p) + scheduled (pw p) \<le> 1 \<and>
     request_follows_render (trace (pw p))"

text \<open>A video with a frame of 3 by 2 pixels, and a video element without source.\<close>

definition example_video :: video where
  "example_video = \<lparr>videoWidth = 3, videoHeight = 2, srcObject = Some 0,
     drawn = (\<lambda>cw ch i j. (i, j, 7, 255))\<rparr>"

definition closed_video :: video where
  "closed_video = \<lparr>videoWidth = 0, videoHeight = 0, srcObject = None,
     drawn = (\<lambda>cw ch i j. (0, 0, 0, 0))\<rparr>"

text \<open>
  OpenCV.js refuses an image without pixels: \<^verbatim>\<open>cv.imread\<close> reads its source through
  \<^verbatim>\<open>getImageData\<close>, which throws for a width or a height of zero, and \<^verbatim>\<open>cv.cvtColor\<close> asserts
  that its input is not empty. A library refuses empty images when, for every size with
  a zero, it throws at one of the two.
\<close>

definition refuses_empty :: "(lib_call \<Rightarrow> bool) \<Rightarrow> bool" where
  "refuses_empty rejects \<longleftrightarrow>
     (\<forall>w h. w = 0 \<or> h = 0 \<longrightarrow> rejects (Imread w h) \<or> rejects (CvtColor h w))"

text \<open>A library that throws when it reads a source without pixels, and never else.\<close>

fun rejects_empty_reads :: "lib_call \<Rightarrow> bool" where
  "rejects_empty_reads (Imread w h) = (w = 0 \<or> h = 0)"
| "rejects_empty_reads c = False"

text \<open>
  The canvas that captureVideo returns for a video, and the library calls that detectImage
  makes on a source up to its first \<^verbatim>\<open>await\<close>, in their order.
\<close>

definition frame_source :: "video \<Rightarrow> source" where
  "frame_source v = \<lparr>src_width = videoWidth v, src_height = videoHeight v,
     src_pixel = drawn v (videoWidth v) (videoHeight v)\<rparr>"

definition pipeline_calls :: "detect_args \<Rightarrow> source \<Rightarrow> lib_call list" where
  "pipeline_calls args source =
     (let h = src_height source; wd = src_width source; m = max h wd
      in [Imread wd h, NewMat h wd, CvtColor h wd, NewEmptyMat,
          CopyMakeBorder h wd 0 (m - h) 0 (m - wd),
          BlobFromImage m m (nth_opt (drop 2 (inputShape args)) 0)
            (nth_opt (drop 2 (inputShape args)) 1),
          NewTensor (inputShape args), NewConfigTensor])"

text \<open>
  What it is for a tick on the video \<open>v\<close>, started in the world \<open>w0\<close> with no inference in
  flight, to run the frame pipeline. The frame is drawn on a canvas. When the library
  throws at none of the calls, the three matrices and the blob are allocated and the
  matrices released, the network is called with the tensor made of the blob, and the
  invocation stays suspended there, holding the blob of the frame padded to a square, the
  two ratios and the configuration. When the library throws, the first call that it
  refuses ends the pipeline before the network is called, and its failure is left
  unhandled.
\<close>

definition runs_frame_pipeline ::
  "(lib_call \<Rightarrow> bool) \<Rightarrow> detect_args \<Rightarrow> video \<Rightarrow> world \<Rightarrow> pump \<Rightarrow> bool" where
  "runs_frame_pipeline rejects args v w0 after \<longleftrightarrow>
     (let vw = videoWidth v; vh = videoHeight v; m = max vh vw; f = fresh w0;
          calls = pipeline_calls args (frame_source v)
      in scheduled (pw after) = 0 \<and>
         (case find rejects calls of
            None \<Rightarrow>
              (\<exists>ctx. awaiting after = [(AwaitNet, ctx)] \<and>
                 trace (pw after) =
                   trace w0 @ [DrawFrame vw vh, Alloc f, Alloc (f + 1), Alloc (f + 2),
                     Alloc (f + 3), Delete f, Delete (f + 1), Delete (f + 2),
                     NetRun (ctx_tensor ctx)] \<and>
                 ctx_tensor ctx = \<lparr>it_blob = ctx_input ctx, it_dims = inputShape args\<rparr> \<and>
                 blob_handle (ctx_input ctx) = f + 3 \<and>
                 blob_width (ctx_input ctx) = nth_opt (drop 2 (inputShape args)) 0 \<and>
                 blob_height (ctx_input ctx) = nth_opt (drop 2 (inputShape args)) 1 \<and>
                 length (blob_of (ctx_input ctx)) = m \<and>
                 (\<forall>i<m. \<forall>j<m. blob_of (ctx_input ctx) ! i ! j =
                    (if i < vh \<and> j < vw then rgba2bgr (drawn v vw vh i j) else (0, 0, 0))) \<and>
                 ctx_xRatio ctx = js_div (Fin (real m)) (Fin (real vw)) \<and>
                 ctx_yRatio ctx = js_div (Fin (real m)) (Fin (real vh)) \<and>
                 ctx_config ctx =
                   map fround [topk args, iouThreshold args, scoreThreshold args])
          | Some c \<Rightarrow>
              awaiting after = [] \<and>
              (\<exists>ys. trace (pw after) =
                   trace w0 @ DrawFrame vw vh # ys @ [Unhandled (LibraryException c)] \<and>
                 set ys \<subseteq> range Alloc \<union> range Delete)))"

text \<open>A video element with a stream attached that has no frame yet.\<close>

definition pending_video :: video where
  "pending_video = \<lparr>videoWidth = 0, videoHeight = 0, srcObject = Some 0,
     drawn = (\<lambda>cw ch i j. (0, 0, 0, 0))\<rparr>"

section \<open>Evaluating the rounding and the loop\<close>

lemma floorlog_0: "floorlog b 0 = 0"
  by (simp add: floorlog_def)

lemma floorlog_step: "0 < x \<Longrightarrow> floorlog 2 x = floorlog 2 (x div 2) + 1"
  by (subst compute_floorlog) simp

lemmas fl_eval = round_double_def round_binary_def round_half_even_def ilog2_def Let_def
  floorlog_0 floorlog_step pow2_def

declare box_loop.simps [simp del]

lemma box_loop_eq:
  "dim selected 1 = Some n \<Longrightarrow>
   box_loop selected xr yr idx boxes =
     boxes @ map (\<lambda>i. decode_row (row_of selected i) xr yr) [idx..<n]"
proof (induction selected xr yr idx boxes rule: box_loop.induct)
  case (1 selected xRatio yRatio idx boxes)
  show ?case
  proof (cases "idx < n")
    case True
    then show ?thesis
      using 1 by (subst box_loop.simps) (simp add: upt_conv_Cons)
  next
    case False
    then show ?thesis
      using 1 by (subst box_loop.simps) simp
  qed
qed

lemma box_loop_no_dim:
  "dim selected 1 = None \<Longrightarrow> box_loop selected xr yr idx boxes = boxes"
  by (subst box_loop.simps) simp

lemma boxes_eq:
  "dim selected 1 = Some n \<Longrightarrow>
   detectImage_boxes selected xr yr = map (\<lambda>i. decode_row (row_of selected i) xr yr) [0..<n]"
  by (simp add: detectImage_boxes_def box_loop_eq)

lemma boxes_nth:
  "dim selected 1 = Some n \<Longrightarrow> idx < n \<Longrightarrow>
   detectImage_boxes selected xr yr ! idx = decode_row (row_of selected idx) xr yr"
  by (simp add: boxes_eq)

lemma boxes_length:
  "dim selected 1 = Some n \<Longrightarrow> length (detectImage_boxes selected xr yr) = n"
  by (simp add: boxes_eq)

lemma decode_row_bounding:
  "bounding (decode_row (cx # cy # w # h # scores) xr yr) =
     [js_mul (js_sub cx (js_mul (Fin (1 / 2)) w)) xr,
      js_mul (js_sub cy (js_mul (Fin (1 / 2)) h)) yr,
      js_mul w xr, js_mul h yr]"
  by (simp add: decode_row_def slice_def num_at_def Let_def)

lemma example_arith:
  "js_mul (js_sub (Fin 100) (js_mul (Fin (1 / 2)) (Fin 40))) (Fin 2) = Fin 160"
  "js_mul (js_sub (Fin 50) (js_mul (Fin (1 / 2)) (Fin 20))) (Fin 1) = Fin 40"
  "js_mul (Fin 40) (Fin 2) = Fin 80"
  "js_mul (Fin 20) (Fin 1) = Fin 20"
  by (simp_all add: fl_eval)

section \<open>The box decoder\<close>

text \<open>
  Claim C1. For the row at position \<open>idx\<close> of the postprocessing output, holding the
  center-form box \<open>(cx, cy, w, h)\<close> in its first four values, the box that detectImage
  pushes at \<open>idx\<close> has the bounding rectangle
  \<open>[(cx - 0.5 * w) * xRatio, (cy - 0.5 * h) * yRatio, w * xRatio, h * yRatio]\<close>, each operation
  being the double-precision one; for \<open>cx = 100\<close>, \<open>cy = 50\<close>, \<open>w = 40\<close>, \<open>h = 20\<close>,
  \<open>xRatio = 2\<close>, \<open>yRatio = 1\<close> this is \<open>[160, 40, 80, 20]\<close>.
\<close>

theorem detectImage_bounding_formula:
  assumes "dim selected 1 = Some n" and "idx < n"
    and "row_of selected idx = cx # cy # w # h # scores"
  shows "bounding (detectImage_boxes selected xRatio yRatio ! idx) =
           [js_mul (js_sub cx (js_mul (Fin (1 / 2)) w)) xRatio,
            js_mul (js_sub cy (js_mul (Fin (1 / 2)) h)) yRatio,
            js_mul w xRatio, js_mul h yRatio]
         \<and> (cx = Fin 100 \<and> cy = Fin 50 \<and> w = Fin 40 \<and> h = Fin 20 \<and>
            xRatio = Fin 2 \<and> yRatio = Fin 1 \<longrightarrow>
            bounding (detectImage_boxes selected xRatio yRatio ! idx) =
              [Fin 160, Fin 40, Fin 80, Fin 20])"
proof -
  have nth: "detectImage_boxes selected xRatio yRatio ! idx =
      decode_row (cx # cy # w # h # scores) xRatio yRatio"
    using assms boxes_nth [of selected n idx xRatio yRatio] by simp
  have general: "bounding (detectImage_boxes selected xRatio yRatio ! idx) =
           [js_mul (js_sub cx (js_mul (Fin (1 / 2)) w)) xRatio,
            js_mul (js_sub cy (js_mul (Fin (1 / 2)) h)) yRatio,
            js_mul w xRatio, js_mul h yRatio]"
    unfolding nth by (rule decode_row_bounding)
  show ?thesis
    unfolding general by (auto simp only: example_arith)
qed

lemma example_selected_dim: "dim example_selected 1 = Some 2"
  by (simp add: dim_def example_selected_def)

lemma example_selected_row:
  "row_of example_selected 1 = [Fin 100, Fin 50, Fin 40, Fin 20, Fin (1 / 2), Fin (1 / 2)]"
  by (simp add: row_of_def dim_def slice_def example_selected_def)

theorem detectImage_bounding_formula_witness:
  "bounding (detectImage_boxes example_selected (Fin 2) (Fin 1) ! 1) =
     [Fin 160, Fin 40, Fin 80, Fin 20]"
proof -
  have "(1::nat) < 2" by simp
  from detectImage_bounding_formula [OF example_selected_dim this example_selected_row,
      of "Fin 2" "Fin 1"]
  show ?thesis by blast
qed

lemma drop4_short: "length row \<le> 4 \<Longrightarrow> drop 4 row = []"
  by simp

lemma row_of_length: "dim selected 2 = Some rw \<Longrightarrow> length (row_of selected idx) \<le> rw"
  by (simp add: row_of_def slice_def)

lemma decode_row_no_scores:
  "length row \<le> 4 \<Longrightarrow> label (decode_row row xr yr) = - 1 \<and> probability (decode_row row xr yr) = NegInf"
  by (simp add: decode_row_def Let_def Math_max_def indexOf_def)

text \<open>
  Claim C10. When the rows of the postprocessing output have width exactly 4, so that no
  class score follows the bounding quad, detectImage still pushes a box for each row, with
  label \<open>-1\<close> and probability \<open>-Infinity\<close>: the label is no class id and the probability
  is below 0.
\<close>

theorem detectImage_row_of_width_four:
  assumes "dim selected 1 = Some n" and "idx < n" and "dim selected 2 = Some 4"
  shows "idx < length (detectImage_boxes selected xRatio yRatio)
         \<and> label (detectImage_boxes selected xRatio yRatio ! idx) = - 1
         \<and> probability (detectImage_boxes selected xRatio yRatio ! idx) = NegInf
         \<and> label (detectImage_boxes selected xRatio yRatio ! idx) < 0
         \<and> js_lt (probability (detectImage_boxes selected xRatio yRatio ! idx)) (Fin 0)"
  using assms row_of_length [of selected 4 idx]
  by (simp add: boxes_nth boxes_length decode_row_no_scores)

theorem detectImage_row_of_width_four_witness:
  "dim bare_selected 1 = Some 1 \<and> dim bare_selected 2 = Some 4
   \<and> label (detectImage_boxes bare_selected (Fin 1) (Fin 1) ! 0) = - 1
   \<and> probability (detectImage_boxes bare_selected (Fin 1) (Fin 1) ! 0) = NegInf"
  using detectImage_row_of_width_four [of bare_selected 1 0 "Fin 1" "Fin 1"]
  by (simp add: dim_def bare_selected_def)

section \<open>The maximum score and its first index\<close>

lemma js_lt_asym: "js_lt a b \<Longrightarrow> \<not> js_lt b a"
  by (cases a; cases b) simp_all

lemma js_not_lt_trans:
  "a \<noteq> NaN \<Longrightarrow> b \<noteq> NaN \<Longrightarrow> c \<noteq> NaN \<Longrightarrow> \<not> js_lt a b \<Longrightarrow> \<not> js_lt b c \<Longrightarrow> \<not> js_lt a c"
  by (cases a; cases b; cases c) simp_all

lemma js_lt_irrefl: "\<not> js_lt a a"
  by (cases a) simp_all

lemma Math_max_from_props:
  "h \<noteq> NaN \<Longrightarrow> NaN \<notin> set xs \<Longrightarrow>
   Math_max_from h xs \<in> insert h (set xs) \<and> \<not> js_lt (Math_max_from h xs) h \<and>
   (\<forall>x \<in> set xs. \<not> js_lt (Math_max_from h xs) x)"
proof (induction xs arbitrary: h)
  case Nil
  then show ?case by (simp add: js_lt_irrefl)
next
  case (Cons x xs)
  define h' where "h' = (if js_lt h x then x else h)"
  have x: "x \<noteq> NaN" and xs: "NaN \<notin> set xs" using Cons.prems by auto
  have h': "h' \<noteq> NaN" using x Cons.prems by (simp add: h'_def)
  have eq: "Math_max_from h (x # xs) = Math_max_from h' xs"
    using x by (simp add: h'_def)
  note IH = Cons.IH [OF h' xs]
  have M: "Math_max_from h' xs \<noteq> NaN"
    using IH h' xs by auto
  have ge_h: "\<not> js_lt h' h" and ge_x: "\<not> js_lt h' x"
    by (auto simp: h'_def js_lt_irrefl dest: js_lt_asym)
  have 1: "\<not> js_lt (Math_max_from h' xs) h"
    using js_not_lt_trans [OF M h' _ _ ge_h] IH Cons.prems by blast
  have 2: "\<not> js_lt (Math_max_from h' xs) x"
    using js_not_lt_trans [OF M h' x _ ge_x] IH by blast
  have 3: "Math_max_from h' xs \<in> insert h (set (x # xs))"
    using IH by (auto simp: h'_def split: if_splits)
  show ?case
    unfolding eq using 1 2 3 IH by simp
qed

lemma Math_max_props:
  assumes "xs \<noteq> []" and "NaN \<notin> set xs"
  shows "Math_max xs \<in> set xs \<and> (\<forall>x \<in> set xs. \<not> js_lt (Math_max xs) x)"
proof -
  obtain x ys where xs: "xs = x # ys" using assms(1) by (cases xs) auto
  have x: "x \<noteq> NaN" and ys: "NaN \<notin> set ys" using assms(2) xs by auto
  have "(if js_lt NegInf x then x else NegInf) = x"
    using x by (cases x) simp_all
  then have eq: "Math_max xs = Math_max_from x ys"
    using x by (simp add: Math_max_def xs)
  show ?thesis
    unfolding eq using Math_max_from_props [OF x ys] by (auto simp: xs)
qed

lemma indexOf_from_first:
  "v \<noteq> NaN \<Longrightarrow> v \<in> set xs \<Longrightarrow>
   \<exists>i<length xs. indexOf_from k xs v = k + int i \<and> xs ! i = v \<and> (\<forall>s \<in> set (take i xs). s \<noteq> v)"
proof (induction xs arbitrary: k)
  case Nil
  then show ?case by simp
next
  case (Cons x xs)
  show ?case
  proof (cases "x = v")
    case True
    then have "indexOf_from k (x # xs) v = k + int 0"
      using Cons.prems by (simp add: js_strict_eq_def)
    then show ?thesis using True by (intro exI [of _ 0]) simp
  next
    case False
    then have "v \<in> set xs" using Cons.prems by simp
    from Cons.IH [OF Cons.prems(1) this, of "k + 1"]
    obtain i where i: "i < length xs" "indexOf_from (k + 1) xs v = k + 1 + int i" "xs ! i = v"
      "\<forall>s \<in> set (take i xs). s \<noteq> v" by blast
    show ?thesis
      using i False by (intro exI [of _ "Suc i"]) (simp add: js_strict_eq_def)
  qed
qed

lemma decode_row_first_argmax:
  assumes "drop 4 row \<noteq> []" and "NaN \<notin> set (drop 4 row)"
  shows "first_argmax (drop 4 row) (label (decode_row row xr yr)) (probability (decode_row row xr yr))"
proof -
  let ?scores = "drop 4 row"
  let ?m = "Math_max ?scores"
  have m: "?m \<in> set ?scores" "\<forall>x \<in> set ?scores. \<not> js_lt ?m x"
    using Math_max_props [OF assms] by auto
  have mn: "?m \<noteq> NaN" using m(1) assms(2) by metis
  obtain i where i: "i < length ?scores" "indexOf_from 0 ?scores ?m = 0 + int i" "?scores ! i = ?m"
      "\<forall>s \<in> set (take i ?scores). s \<noteq> ?m"
    using indexOf_from_first [OF mn m(1), of 0] by blast
  have l: "label (decode_row row xr yr) = int i" "probability (decode_row row xr yr) = ?m"
    using i(2) by (simp_all add: decode_row_def Let_def indexOf_def)
  show ?thesis
    unfolding l first_argmax_def using i m by simp
qed

text \<open>
  Claim C7, as amended. For every detection row with at least one class score, none of
  them NaN, the decoded label is the first index at which the maximum class score occurs
  and the probability is that maximum; scores \<open>[0.5, 0.5]\<close> give label 0.
\<close>

theorem detectImage_label_first_argmax:
  assumes "dim selected 1 = Some n" and "idx < n"
    and "scores = drop 4 (row_of selected idx)"
    and "scores \<noteq> []" and "NaN \<notin> set scores"
  shows "first_argmax scores (label (detectImage_boxes selected xRatio yRatio ! idx))
           (probability (detectImage_boxes selected xRatio yRatio ! idx))
         \<and> (scores = [Fin (1 / 2), Fin (1 / 2)] \<longrightarrow>
            label (detectImage_boxes selected xRatio yRatio ! idx) = 0)"
proof -
  have nth: "detectImage_boxes selected xRatio yRatio ! idx =
      decode_row (row_of selected idx) xRatio yRatio"
    using assms(1,2) by (rule boxes_nth)
  have fa: "first_argmax scores (label (decode_row (row_of selected idx) xRatio yRatio))
      (probability (decode_row (row_of selected idx) xRatio yRatio))"
    unfolding assms(3) using assms(3,4,5) by (intro decode_row_first_argmax) simp_all
  have tie: "label (decode_row (row_of selected idx) xRatio yRatio) = 0"
    if "scores = [Fin (1 / 2), Fin (1 / 2)]"
    using that assms(3)
    by (simp add: decode_row_def Let_def indexOf_def Math_max_def js_strict_eq_def)
  show ?thesis
    unfolding nth using fa tie by blast
qed

theorem detectImage_label_first_argmax_witness:
  "first_argmax [Fin (1 / 2), Fin (1 / 2)]
     (label (detectImage_boxes example_selected (Fin 2) (Fin 1) ! 1))
     (probability (detectImage_boxes example_selected (Fin 2) (Fin 1) ! 1))
   \<and> label (detectImage_boxes example_selected (Fin 2) (Fin 1) ! 1) = 0"
proof -
  have lt: "(1::nat) < 2" by simp
  have sc: "[Fin (1 / 2), Fin (1 / 2)] = drop 4 (row_of example_selected 1)"
    unfolding example_selected_row by simp
  have ne: "[Fin (1 / 2), Fin (1 / 2)] \<noteq> []" and nn: "NaN \<notin> set [Fin (1 / 2), Fin (1 / 2)]"
    by simp_all
  from detectImage_label_first_argmax [OF example_selected_dim lt sc ne nn, of "Fin 2" "Fin 1"]
  show ?thesis by blast
qed

text \<open>
  The claim C7 as stated, for every detection row, fails on a row with a NaN score
  (\<^verbatim>\<open>Math.max\<close> is NaN, which \<^verbatim>\<open>indexOf\<close> never finds) and on a row with no score.
\<close>

theorem detectImage_label_counterexample:
  "\<not> first_argmax (drop 4 (row_of nan_selected 0))
       (label (detectImage_boxes nan_selected (Fin 1) (Fin 1) ! 0))
       (probability (detectImage_boxes nan_selected (Fin 1) (Fin 1) ! 0))
   \<and> label (detectImage_boxes nan_selected (Fin 1) (Fin 1) ! 0) = - 1
   \<and> probability (detectImage_boxes nan_selected (Fin 1) (Fin 1) ! 0) = NaN
   \<and> \<not> first_argmax (drop 4 (row_of scoreless_selected 1))
       (label (detectImage_boxes scoreless_selected (Fin 1) (Fin 1) ! 1))
       (probability (detectImage_boxes scoreless_selected (Fin 1) (Fin 1) ! 1))
   \<and> label (detectImage_boxes scoreless_selected (Fin 1) (Fin 1) ! 1) = - 1"
proof -
  have d1: "dim nan_selected 1 = Some 1" and d2: "dim scoreless_selected 1 = Some 2"
    by (simp_all add: dim_def nan_selected_def scoreless_selected_def)
  have r1: "row_of nan_selected 0 = [Fin 10, Fin 20, Fin 4, Fin 6, NaN, Fin (1 / 2)]"
    by (simp add: row_of_def dim_def slice_def nan_selected_def)
  have r2: "row_of scoreless_selected 1 = [Fin 5, Fin 6, Fin 7, Fin 8]"
    by (simp add: row_of_def dim_def slice_def scoreless_selected_def)
  have b1: "detectImage_boxes nan_selected (Fin 1) (Fin 1) ! 0 =
      decode_row (row_of nan_selected 0) (Fin 1) (Fin 1)"
    using d1 by (rule boxes_nth) simp
  have b2: "detectImage_boxes scoreless_selected (Fin 1) (Fin 1) ! 1 =
      decode_row (row_of scoreless_selected 1) (Fin 1) (Fin 1)"
    using d2 by (rule boxes_nth) simp
  have l1: "label (decode_row (row_of nan_selected 0) (Fin 1) (Fin 1)) = - 1"
    and p1: "probability (decode_row (row_of nan_selected 0) (Fin 1) (Fin 1)) = NaN"
    unfolding r1 by (simp_all add: decode_row_def Let_def indexOf_def Math_max_def js_strict_eq_def)
  have l2: "label (decode_row (row_of scoreless_selected 1) (Fin 1) (Fin 1)) = - 1"
    unfolding r2 by (simp add: decode_row_def Let_def indexOf_def Math_max_def)
  show ?thesis
    unfolding b1 b2 l1 l2 p1 by (simp add: first_argmax_def)
qed

section \<open>The error of one rounding\<close>

lemma pow2_powi: "pow2 e = 2 powi e"
  by (simp add: pow2_def power_int_def power_one_over inverse_eq_divide)

lemma pow2_pos [simp]: "0 < pow2 e"
  by (simp add: pow2_powi)

lemma pow2_add: "pow2 (a + b) = pow2 a * pow2 b"
  by (simp add: pow2_powi power_int_add)

lemma pow2_mono: "a \<le> b \<Longrightarrow> pow2 a \<le> pow2 b"
  by (simp add: pow2_powi power_int_increasing)

lemma pow2_less_cancel: "pow2 a < pow2 b \<Longrightarrow> a < b"
  using pow2_mono [of b a] by (cases "a < b") auto

lemma pow2_nat: "pow2 (int n) = 2 ^ n"
  by (simp add: pow2_def)

lemma ilog2_bounds:
  assumes "0 < a"
  shows "pow2 (ilog2 a) \<le> a \<and> a < pow2 (ilog2 a + 1)"
proof (cases "1 \<le> a")
  case True
  define n where "n = nat \<lfloor>a\<rfloor>"
  define k where "k = floorlog 2 n"
  have n: "0 < n" "real n \<le> a" "a < real n + 1"
    using True by (simp_all add: n_def)
  have b: "2 ^ (k - 1) \<le> n" "n < 2 ^ k"
    using floorlog_bounds [of n 2] n(1) by (simp_all add: k_def)
  have k: "0 < k" using b(2) n(1) by (cases k) auto
  have e: "ilog2 a = int (k - 1)"
    using True k by (simp add: ilog2_def n_def k_def)
  have "(2::real) ^ (k - 1) \<le> real n"
    using of_nat_mono [OF b(1), where 'a = real] by simp
  then have lo: "pow2 (ilog2 a) \<le> a"
    unfolding e pow2_nat using n(2) by linarith
  have "real (Suc n) \<le> (2::real) ^ k"
    using of_nat_mono [OF Suc_leI [OF b(2)], where 'a = real] by simp
  then have "real n + 1 \<le> 2 ^ k" by simp
  moreover have ek: "ilog2 a + 1 = int k" using e k by simp
  ultimately have hi: "a < pow2 (ilog2 a + 1)"
    unfolding ek pow2_nat using n(3) by linarith
  show ?thesis using lo hi by simp
next
  case False
  then have a1: "a < 1" by simp
  define n where "n = nat \<lceil>1 / a\<rceil>"
  define k where "k = floorlog 2 (n - 1)"
  have inv: "1 < 1 / a" using assms a1 by simp
  have n: "2 \<le> n" "1 / a \<le> real n" "real n - 1 < 1 / a"
  proof -
    have c: "1 < \<lceil>1 / a\<rceil>" using inv by linarith
    then show "2 \<le> n" unfolding n_def by linarith
    have r: "real n = of_int \<lceil>1 / a\<rceil>" unfolding n_def using c by simp
    show "1 / a \<le> real n" unfolding r by (rule le_of_int_ceiling)
    show "real n - 1 < 1 / a" unfolding r by linarith
  qed
  have b: "2 ^ (k - 1) \<le> n - 1" "n - 1 < 2 ^ k"
    using floorlog_bounds [of "n - 1" 2] n(1) by (simp_all add: k_def)
  have k: "0 < k" using b(2) n(1) by (cases k) auto
  have e: "ilog2 a = - int k"
    using False by (simp add: ilog2_def n_def k_def)
  have "Suc (n - 1) \<le> 2 ^ k" using b(2) by (rule Suc_leI)
  then have "n \<le> 2 ^ k" using n(1) by simp
  then have "real n \<le> 2 ^ k"
    using of_nat_mono [of n "2 ^ k", where 'a = real] by simp
  then have "1 / a \<le> 2 ^ k" using n(2) by linarith
  then have "1 / 2 ^ k \<le> a"
    using assms by (simp add: field_simps)
  then have lo: "pow2 (ilog2 a) \<le> a"
    unfolding e using k by (simp add: pow2_def)
  have "(2::real) ^ (k - 1) \<le> real (n - 1)"
    using of_nat_mono [OF b(1), where 'a = real] by simp
  then have "2 ^ (k - 1) \<le> real n - 1" using n(1) by (simp add: of_nat_diff)
  then have "2 ^ (k - 1) < 1 / a" using n(3) by linarith
  then have "a < 1 / 2 ^ (k - 1)"
    using assms by (simp add: field_simps)
  moreover have "pow2 (- int k + 1) = 1 / 2 ^ (k - 1)"
  proof (cases "k = 1")
    case True then show ?thesis by (simp add: pow2_def)
  next
    case False
    then have "- int k + 1 < 0" "nat (int k - 1) = k - 1" using k by auto
    then show ?thesis by (simp add: pow2_def)
  qed
  ultimately have hi: "a < pow2 (ilog2 a + 1)" unfolding e by simp
  show ?thesis using lo hi by simp
qed

lemma round_half_even_error: "\<bar>real_of_int (round_half_even q) - q\<bar> \<le> 1 / 2"
  unfolding round_half_even_def Let_def by (auto simp: abs_le_iff)

lemma round_double_error:
  assumes lo: "pow2 (- 1022) \<le> \<bar>x\<bar>" and hi: "\<bar>x\<bar> < pow2 1023"
  shows "\<exists>y. round_double x = Fin y \<and> \<bar>y - x\<bar> \<le> \<bar>x\<bar> / 2 ^ 53 \<and> sgn y = sgn x"
proof -
  define a where "a = \<bar>x\<bar>"
  have a: "0 < a" using lo pow2_pos [of "- 1022"] unfolding a_def by linarith
  then have x0: "x \<noteq> 0" by (auto simp: a_def)
  define e where "e = ilog2 a"
  have eb: "pow2 e \<le> a" "a < pow2 (e + 1)"
    using ilog2_bounds [OF a] by (simp_all add: e_def)
  have "pow2 (- 1022) < pow2 (e + 1)" using lo eb(2) by (simp add: a_def)
  then have emin: "- 1022 \<le> e" using pow2_less_cancel [of "- 1022" "e + 1"] by simp
  define ulp where "ulp = pow2 (e - 52)"
  define m where "m = round_half_even (a / ulp)"
  define r where "r = real_of_int m * ulp"
  have ulp: "0 < ulp" by (simp add: ulp_def)
  have ulp53: "ulp * 2 ^ 52 = pow2 e"
  proof -
    have "pow2 e = pow2 ((e - 52) + 52)" by simp
    also have "\<dots> = pow2 (e - 52) * pow2 52" by (rule pow2_add)
    finally show ?thesis by (simp add: ulp_def pow2_def)
  qed
  have "\<bar>real_of_int m - a / ulp\<bar> \<le> 1 / 2"
    unfolding m_def by (rule round_half_even_error)
  then have "\<bar>real_of_int m - a / ulp\<bar> * ulp \<le> 1 / 2 * ulp"
    using ulp by (intro mult_right_mono) simp_all
  moreover have "\<bar>real_of_int m - a / ulp\<bar> * ulp = \<bar>r - a\<bar>"
  proof -
    have "(real_of_int m - a / ulp) * ulp = r - a"
      using ulp by (simp add: r_def field_simps)
    then have "\<bar>r - a\<bar> = \<bar>real_of_int m - a / ulp\<bar> * \<bar>ulp\<bar>"
      by (metis abs_mult)
    then show ?thesis using ulp by simp
  qed
  ultimately have err: "\<bar>r - a\<bar> \<le> ulp / 2" by simp
  have "ulp / 2 = pow2 e / 2 ^ 53" using ulp53 by (simp add: field_simps)
  also have "\<dots> \<le> a / 2 ^ 53" using eb(1) by (simp add: divide_right_mono)
  finally have err_rel: "\<bar>r - a\<bar> \<le> a / 2 ^ 53" using err by linarith
  have rpos: "0 < r"
  proof -
    have "a / 2 ^ 53 < a" using a by (simp add: field_simps)
    then show ?thesis using err_rel by linarith
  qed
  have "r \<le> a + a / 2 ^ 53" using err_rel by linarith
  also have "\<dots> < 2 * a" using a by (simp add: field_simps)
  also have "\<dots> < 2 * pow2 1023" using hi by (simp add: a_def)
  also have "\<dots> = pow2 1024" using pow2_add [of 1 1023] by (simp add: pow2_def)
  finally have no_overflow: "\<not> pow2 (1023 + 1) \<le> r" by simp
  have "max (ilog2 \<bar>x\<bar>) (- 1022) - int 53 + 1 = e - 52"
    using emin by (simp add: e_def a_def)
  then have rd: "round_double x = Fin (sgn x * r)"
    using x0 no_overflow
    by (simp add: round_double_def round_binary_def Let_def r_def m_def ulp_def a_def)
  have "\<bar>sgn x * r - x\<bar> = \<bar>sgn x * (r - a)\<bar>"
    by (simp add: a_def right_diff_distrib mult_sgn_abs)
  also have "\<dots> = \<bar>r - a\<bar>" using x0 by (simp add: abs_mult abs_sgn_eq)
  finally have "\<bar>sgn x * r - x\<bar> \<le> \<bar>x\<bar> / 2 ^ 53" using err_rel by (simp add: a_def)
  moreover have "sgn (sgn x * r) = sgn x" using rpos x0 by (simp add: sgn_mult)
  ultimately show ?thesis using rd by blast
qed

section \<open>preprocessing, call by call\<close>

lemma allocs_0 [simp]: "allocs 0 w = w"
  by (simp add: allocs_def)

lemma preprocessing_cases:
  "preprocessing rejects source mw mh w =
     (let h = src_height source; wd = src_width source; m = maxSize_of source; f = fresh w in
      if rejects (Imread wd h) then (Inl (LibraryException (Imread wd h)), w)
      else if rejects (NewMat h wd) then (Inl (LibraryException (NewMat h wd)), allocs 1 w)
      else if rejects (CvtColor h wd) then (Inl (LibraryException (CvtColor h wd)), allocs 2 w)
      else if rejects NewEmptyMat then (Inl (LibraryException NewEmptyMat), allocs 2 w)
      else if rejects (CopyMakeBorder h wd 0 (m - h) 0 (m - wd))
        then (Inl (LibraryException (CopyMakeBorder h wd 0 (m - h) 0 (m - wd))), allocs 3 w)
      else if rejects (BlobFromImage m m mw mh)
        then (Inl (LibraryException (BlobFromImage m m mw mh)), allocs 3 w)
      else (Inr (\<lparr>blob_handle = f + 3, blob_of = padded_pixels source,
                   blob_width = mw, blob_height = mh\<rparr>,
                 js_div (Fin (real m)) (Fin (real wd)), js_div (Fin (real m)) (Fin (real h))),
            w\<lparr>trace := trace w @ [Alloc f, Alloc (f + 1), Alloc (f + 2), Alloc (f + 3),
                                   Delete f, Delete (f + 1), Delete (f + 2)],
              fresh := f + 4\<rparr>))"
  by (simp add: preprocessing_def bind_def guard_def return_def cv_imread_def cv_new_Mat_def
      cv_cvtColor_def cv_new_empty_Mat_def cv_copyMakeBorder_def cv_blobFromImage_def
      delete_def alloc_def emit_def allocs_def Let_def maxSize_of_def padded_pixels_def
      max_def upt_rec [of "fresh w"] numeral_2_eq_2 numeral_3_eq_3 o_def)

lemma preprocessing_Inr:
  assumes "preprocessing rejects source mw mh w = (Inr (input, xRatio, yRatio), w')"
  shows "blob_of input = padded_pixels source"
    and "blob_handle input = fresh w + 3"
    and "xRatio = js_div (Fin (real (maxSize_of source))) (Fin (real (src_width source)))"
    and "yRatio = js_div (Fin (real (maxSize_of source))) (Fin (real (src_height source)))"
    and "trace w' = trace w @ [Alloc (fresh w), Alloc (fresh w + 1), Alloc (fresh w + 2),
           Alloc (fresh w + 3), Delete (fresh w), Delete (fresh w + 1), Delete (fresh w + 2)]"
    and "fresh w' = fresh w + 4" and "scheduled w' = scheduled w"
  using assms unfolding preprocessing_cases Let_def
  by (auto split: if_splits)

lemma preprocessing_Inl:
  assumes "preprocessing rejects source mw mh w = (Inl e, w')"
  shows "\<exists>c. e = LibraryException c \<and> rejects c"
    and "\<exists>k\<le>3. w' = allocs k w"
  using assms unfolding preprocessing_cases Let_def
  by (auto split: if_splits intro: exI [of _ 0] exI [of _ 1] exI [of _ 2] exI [of _ 3])

section \<open>The padded square\<close>

lemma padded_pixels_length: "length (padded_pixels source) = maxSize_of source"
  by (simp add: padded_pixels_def maxSize_of_def)

lemma padded_pixels_row_length:
  "row \<in> set (padded_pixels source) \<Longrightarrow> length row = maxSize_of source"
  by (auto simp: padded_pixels_def maxSize_of_def)

lemma padded_pixels_nth:
  assumes "i < maxSize_of source" and "j < maxSize_of source"
  shows "padded_pixels source ! i ! j =
           (if i < src_height source \<and> j < src_width source
            then rgba2bgr (src_pixel source i j) else (0, 0, 0))"
proof (cases "i < src_height source")
  case True
  then have "padded_pixels source ! i =
      map (\<lambda>j. rgba2bgr (src_pixel source i j)) [0..<src_width source]
        @ replicate (maxSize_of source - src_width source) (0, 0, 0)"
    by (simp add: padded_pixels_def nth_append)
  then show ?thesis
    using True assms(2) by (simp add: nth_append)
next
  case False
  then have "padded_pixels source ! i = replicate (maxSize_of source) (0, 0, 0)"
    using assms(1) by (simp add: padded_pixels_def nth_append)
  then show ?thesis
    using False assms(2) by simp
qed

section \<open>The two ratios\<close>

lemma round_half_even_of_int [simp]: "round_half_even (of_int k) = k"
  by (simp add: round_half_even_def)

lemma round_double_one: "round_double 1 = Fin 1"
  by (simp add: fl_eval)

lemma pow2_numeral_bound: "(2::real) ^ 62 < pow2 1023"
proof -
  have "(2::real) ^ 62 < 2 ^ 1023" by (rule power_strict_increasing) simp_all
  then show ?thesis by (simp add: pow2_def)
qed

lemma pow2_low_bound: "pow2 (- 1022) \<le> 1 / 2"
proof -
  have "(2::real) ^ 1 \<le> 2 ^ 1022" by (rule power_increasing) simp_all
  then show ?thesis by (simp add: pow2_def field_simps)
qed

lemma round_double_mid:
  assumes "1 / 2 \<le> \<bar>x\<bar>" and "\<bar>x\<bar> \<le> 2 ^ 62"
  shows "\<exists>y. round_double x = Fin y \<and> \<bar>y - x\<bar> \<le> \<bar>x\<bar> / 2 ^ 53"
proof -
  have "pow2 (- 1022) \<le> \<bar>x\<bar>" using assms(1) pow2_low_bound by linarith
  moreover have "\<bar>x\<bar> < pow2 1023" using assms(2) pow2_numeral_bound by linarith
  ultimately show ?thesis using round_double_error [of x] by blast
qed

lemma round_double_nat:
  assumes "n < 2 ^ 53"
  shows "round_double (real n) = Fin (real n)"
proof (cases "n = 0")
  case True
  then show ?thesis by (simp add: round_double_def round_binary_def)
next
  case False
  then have a: "0 < real n" by simp
  define e where "e = ilog2 (real n)"
  have eb: "pow2 e \<le> real n" "real n < pow2 (e + 1)"
    using ilog2_bounds [OF a] by (simp_all add: e_def)
  have "pow2 0 \<le> real n" using False by (simp add: pow2_def)
  then have "pow2 0 < pow2 (e + 1)" using eb(2) by linarith
  then have e0: "0 \<le> e" using pow2_less_cancel [of 0 "e + 1"] by simp
  have "real n < 2 ^ 53" using assms of_nat_less_iff [of n "2 ^ 53", where 'a = real] by simp
  then have "pow2 e < pow2 53" using eb(1) by (simp add: pow2_def)
  then have e52: "e \<le> 52" using pow2_less_cancel [of e 53] by simp
  define d where "d = nat (52 - e)"
  have ulp: "pow2 (e - 52) = 1 / 2 ^ d"
  proof (cases "e = 52")
    case True then show ?thesis by (simp add: pow2_def d_def)
  next
    case False
    then have "e - 52 < 0" "nat (52 - e) = nat (- (e - 52))" using e52 by auto
    then show ?thesis by (simp add: pow2_def d_def)
  qed
  have q: "real n / pow2 (e - 52) = real_of_int (int (n * 2 ^ d))"
    by (simp add: ulp)
  have r: "real_of_int (round_half_even (real n / pow2 (e - 52))) * pow2 (e - 52) = real n"
    unfolding q round_half_even_of_int by (simp add: ulp)
  have "real n < pow2 1024"
  proof -
    have "(2::real) ^ 53 \<le> 2 ^ 1024" by (rule power_increasing) simp_all
    then show ?thesis using \<open>real n < 2 ^ 53\<close> by (simp add: pow2_def)
  qed
  then have no: "\<not> pow2 (1023 + 1) \<le> real n" by simp
  have m: "max (ilog2 \<bar>real n\<bar>) (- 1022) - int 53 + 1 = e - 52"
    using e0 by (simp add: e_def)
  show ?thesis
    using a no unfolding round_double_def round_binary_def Let_def m
    by (simp add: r)
qed

lemma ratio_longer_axis:
  assumes "0 < n" shows "js_div (Fin (real n)) (Fin (real n)) = Fin 1"
  using assms by (simp add: round_double_one)

lemma ratio_shorter_axis:
  assumes "0 < d" and "d < m" and "m < 2 ^ 31"
  shows "\<exists>y. js_div (Fin (real m)) (Fin (real d)) = Fin y \<and> 1 < y \<and>
             \<bar>y - real m / real d\<bar> \<le> (real m / real d) / 2 ^ 53"
proof -
  define q where "q = real m / real d"
  have d: "0 < real d" "real d < 2 ^ 31"
    using assms of_nat_less_iff [of d "2 ^ 31", where 'a = real] by simp_all
  have "real d + 1 \<le> real m" using assms(2) by linarith
  then have "(real d + 1) / real d \<le> q"
    unfolding q_def using d(1) by (simp add: divide_right_mono)
  moreover have "(real d + 1) / real d = 1 + 1 / real d"
    using d(1) by (simp add: field_simps)
  moreover have "1 / 2 ^ 31 < 1 / real d"
    using d by (simp add: field_simps)
  ultimately have q_lo: "1 + 1 / 2 ^ 31 < q" by linarith
  have "1 \<le> real d" using assms(1) by simp
  then have "real m * 1 \<le> real m * real d" by (intro mult_left_mono) simp_all
  then have "q \<le> real m" unfolding q_def using d(1) by (simp add: field_simps)
  moreover have "real m < 2 ^ 31"
    using assms(3) of_nat_less_iff [of m "2 ^ 31", where 'a = real] by simp
  moreover have "(2::real) ^ 31 \<le> 2 ^ 62" by simp
  ultimately have q_hi: "q \<le> 2 ^ 62" by linarith
  have "1 / 2 \<le> \<bar>q\<bar>" "\<bar>q\<bar> \<le> 2 ^ 62" using q_lo q_hi by simp_all
  from round_double_mid [OF this]
  obtain y where y: "round_double q = Fin y" "\<bar>y - q\<bar> \<le> \<bar>q\<bar> / 2 ^ 53" by blast
  have "(0::real) < 1 + 1 / 2 ^ 31" by simp
  then have "0 < q" using q_lo by linarith
  then have yq: "\<bar>y - q\<bar> \<le> q / 2 ^ 53" using y(2) by simp
  then have "q - q / 2 ^ 53 \<le> y" by linarith
  moreover have "1 < q - q / 2 ^ 53" using q_lo by (simp add: field_simps)
  ultimately have "1 < y" by linarith
  moreover have "js_div (Fin (real m)) (Fin (real d)) = Fin y"
    using assms(1) y(1) by (simp add: q_def)
  ultimately show ?thesis using yq unfolding q_def by blast
qed

lemma product_shorter_axis:
  assumes "0 < d" and "d < m" and "m < 2 ^ 31"
    and "\<bar>y - real m / real d\<bar> \<le> (real m / real d) / 2 ^ 53"
  shows "\<exists>p. js_mul (Fin y) (Fin (real d)) = Fin p \<and> \<bar>p - real m\<bar> \<le> 3 * real m / 2 ^ 53"
proof -
  have d: "0 < real d" using assms(1) by simp
  have m: "1 \<le> real m" "real m < 2 ^ 31"
    using assms of_nat_less_iff [of m "2 ^ 31", where 'a = real] by simp_all
  define t where "t = y * real d"
  have "\<bar>y - real m / real d\<bar> * real d \<le> (real m / real d) / 2 ^ 53 * real d"
    using assms(4) d by (intro mult_right_mono) simp_all
  moreover have "\<bar>y - real m / real d\<bar> * real d = \<bar>t - real m\<bar>"
  proof -
    have "(y - real m / real d) * real d = t - real m"
      using d by (simp add: t_def field_simps)
    then have "\<bar>t - real m\<bar> = \<bar>y - real m / real d\<bar> * \<bar>real d\<bar>" by (metis abs_mult)
    then show ?thesis using d by simp
  qed
  moreover have "(real m / real d) / 2 ^ 53 * real d = real m / 2 ^ 53"
    using d by simp
  ultimately have t_err: "\<bar>t - real m\<bar> \<le> real m / 2 ^ 53" by simp
  have t_lo: "real m - real m / 2 ^ 53 \<le> t" and t_hi: "t \<le> real m + real m / 2 ^ 53"
    using t_err by linarith+
  have "real m / 2 \<le> real m - real m / 2 ^ 53" using m(1) by (simp add: field_simps)
  then have t_half: "1 / 2 \<le> t" using t_lo m(1) by linarith
  have "real m / 2 ^ 53 \<le> real m" using m(1) by (simp add: field_simps)
  then have t_2m: "t \<le> 2 * real m" using t_hi by linarith
  moreover have "2 * (2::real) ^ 31 \<le> 2 ^ 62" by simp
  ultimately have "t \<le> 2 ^ 62" using m(2) by linarith
  then have "1 / 2 \<le> \<bar>t\<bar>" "\<bar>t\<bar> \<le> 2 ^ 62" using t_half by simp_all
  from round_double_mid [OF this]
  obtain p where p: "round_double t = Fin p" "\<bar>p - t\<bar> \<le> \<bar>t\<bar> / 2 ^ 53" by blast
  have "\<bar>t\<bar> / 2 ^ 53 \<le> 2 * real m / 2 ^ 53"
    using t_2m t_half by (simp add: divide_right_mono)
  then have "\<bar>p - t\<bar> \<le> 2 * real m / 2 ^ 53" using p(2) by linarith
  then have "\<bar>p - real m\<bar> \<le> 3 * real m / 2 ^ 53" using t_err by linarith
  moreover have "js_mul (Fin y) (Fin (real d)) = Fin p" using p(1) by (simp add: t_def)
  ultimately show ?thesis by blast
qed

lemma product_longer_axis:
  assumes "n < 2 ^ 31" shows "js_mul (Fin 1) (Fin (real n)) = Fin (real n)"
proof -
  have "(2::nat) ^ 31 \<le> 2 ^ 53" by (rule power_increasing) simp_all
  then have "n < 2 ^ 53" using assms by linarith
  then show ?thesis by (simp add: round_double_nat)
qed

section \<open>Padding and ratios\<close>

text \<open>
  Claim C2, as amended. For a source of width and height above 0 (and below \<open>2^31\<close>, as
  the sizes of every matrix are), preprocessing hands to the resize a square of side
  \<open>maxSize = max height width\<close> that holds the source in its top left corner and zeros
  below and to the right of it; \<open>xRatio\<close> and \<open>yRatio\<close> are the doubles nearest to
  \<open>maxSize / width\<close> and \<open>maxSize / height\<close>; a square source gives two ratios 1, any other
  source two different ratios; and the products \<open>xRatio * width\<close> and \<open>yRatio * height\<close>
  are \<open>maxSize\<close> exactly on the longer axis and within \<open>3 * maxSize / 2^53\<close> of it on the
  shorter one.
\<close>

theorem preprocessing_pads_and_ratios:
  assumes "preprocessing rejects source modelWidth modelHeight w =
             (Inr (input, xRatio, yRatio), w')"
    and "0 < src_width source" and "0 < src_height source"
    and "src_width source < 2 ^ 31" and "src_height source < 2 ^ 31"
  shows "length (blob_of input) = maxSize_of source
       \<and> (\<forall>row \<in> set (blob_of input). length row = maxSize_of source)
       \<and> (\<forall>i<maxSize_of source. \<forall>j<maxSize_of source.
            blob_of input ! i ! j =
              (if i < src_height source \<and> j < src_width source
               then rgba2bgr (src_pixel source i j) else (0, 0, 0)))
       \<and> xRatio = round_double (real (maxSize_of source) / real (src_width source))
       \<and> yRatio = round_double (real (maxSize_of source) / real (src_height source))
       \<and> (src_width source = src_height source \<longrightarrow> xRatio = Fin 1 \<and> yRatio = Fin 1)
       \<and> (src_width source \<noteq> src_height source \<longrightarrow> xRatio \<noteq> yRatio)
       \<and> (\<exists>px py.
            js_mul xRatio (Fin (real (src_width source))) = Fin px \<and>
            js_mul yRatio (Fin (real (src_height source))) = Fin py \<and>
            \<bar>px - real (maxSize_of source)\<bar> \<le> 3 * real (maxSize_of source) / 2 ^ 53 \<and>
            \<bar>py - real (maxSize_of source)\<bar> \<le> 3 * real (maxSize_of source) / 2 ^ 53 \<and>
            (src_height source \<le> src_width source \<longrightarrow> px = real (maxSize_of source)) \<and>
            (src_width source \<le> src_height source \<longrightarrow> py = real (maxSize_of source)))"
proof -
  let ?wd = "src_width source" and ?h = "src_height source" and ?m = "maxSize_of source"
  note r = preprocessing_Inr [OF assms(1)]
  have xr: "xRatio = js_div (Fin (real ?m)) (Fin (real ?wd))"
    and yr: "yRatio = js_div (Fin (real ?m)) (Fin (real ?h))"
    using r(3,4) by simp_all
  have m31: "?m < 2 ^ 31" using assms(4,5) by (simp add: maxSize_of_def)
  have square: "length (blob_of input) = ?m"
      "\<forall>row \<in> set (blob_of input). length row = ?m"
      "\<forall>i<?m. \<forall>j<?m. blob_of input ! i ! j =
          (if i < ?h \<and> j < ?wd then rgba2bgr (src_pixel source i j) else (0, 0, 0))"
    unfolding r(1)
    by (simp_all add: padded_pixels_length padded_pixels_row_length padded_pixels_nth)
  have quot: "xRatio = round_double (real ?m / real ?wd)"
      "yRatio = round_double (real ?m / real ?h)"
    using assms(2,3) by (simp_all add: xr yr)
  have trivial_err: "\<bar>real ?m - real ?m\<bar> \<le> 3 * real ?m / 2 ^ 53" by simp
  consider (eq) "?wd = ?h" | (wide) "?h < ?wd" | (tall) "?wd < ?h" by linarith
  then have rest: "(?wd = ?h \<longrightarrow> xRatio = Fin 1 \<and> yRatio = Fin 1)
       \<and> (?wd \<noteq> ?h \<longrightarrow> xRatio \<noteq> yRatio)
       \<and> (\<exists>px py.
            js_mul xRatio (Fin (real ?wd)) = Fin px \<and> js_mul yRatio (Fin (real ?h)) = Fin py \<and>
            \<bar>px - real ?m\<bar> \<le> 3 * real ?m / 2 ^ 53 \<and>
            \<bar>py - real ?m\<bar> \<le> 3 * real ?m / 2 ^ 53 \<and>
            (?h \<le> ?wd \<longrightarrow> px = real ?m) \<and> (?wd \<le> ?h \<longrightarrow> py = real ?m))"
  proof cases
    case eq
    then have m: "?m = ?wd" "?m = ?h" by (simp_all add: maxSize_of_def)
    have x1: "xRatio = Fin 1" using xr assms(2) ratio_longer_axis [of ?wd] m(1) by simp
    have y1: "yRatio = Fin 1" using yr assms(3) ratio_longer_axis [of ?h] m(2) by simp
    have px: "js_mul xRatio (Fin (real ?wd)) = Fin (real ?m)"
      unfolding x1 using product_longer_axis [OF assms(4)] m(1) by simp
    have py: "js_mul yRatio (Fin (real ?h)) = Fin (real ?m)"
      unfolding y1 using product_longer_axis [OF assms(5)] m(2) by simp
    show ?thesis using eq x1 y1 px py trivial_err by blast
  next
    case wide
    then have m: "?m = ?wd" by (simp add: maxSize_of_def)
    have x1: "xRatio = Fin 1" using xr assms(2) ratio_longer_axis [of ?wd] m by simp
    obtain y where y: "yRatio = Fin y" "1 < y"
        "\<bar>y - real ?m / real ?h\<bar> \<le> (real ?m / real ?h) / 2 ^ 53"
      using ratio_shorter_axis [OF assms(3), of ?m] wide m m31 yr by auto
    obtain py where py: "js_mul (Fin y) (Fin (real ?h)) = Fin py"
        "\<bar>py - real ?m\<bar> \<le> 3 * real ?m / 2 ^ 53"
      using product_shorter_axis [OF assms(3) _ m31 y(3)] wide m by auto
    have px: "js_mul xRatio (Fin (real ?wd)) = Fin (real ?m)"
      unfolding x1 using product_longer_axis [OF assms(4)] m by simp
    have ne: "xRatio \<noteq> yRatio" using x1 y(1,2) by simp
    have "js_mul yRatio (Fin (real ?h)) = Fin py" using py(1) y(1) by simp
    then show ?thesis using wide ne px py(2) trivial_err by (intro conjI impI exI [of _ "real ?m"] exI [of _ py]) simp_all
  next
    case tall
    then have m: "?m = ?h" by (simp add: maxSize_of_def)
    have y1: "yRatio = Fin 1" using yr assms(3) ratio_longer_axis [of ?h] m by simp
    obtain x where x: "xRatio = Fin x" "1 < x"
        "\<bar>x - real ?m / real ?wd\<bar> \<le> (real ?m / real ?wd) / 2 ^ 53"
      using ratio_shorter_axis [OF assms(2), of ?m] tall m m31 xr by auto
    obtain px where px: "js_mul (Fin x) (Fin (real ?wd)) = Fin px"
        "\<bar>px - real ?m\<bar> \<le> 3 * real ?m / 2 ^ 53"
      using product_shorter_axis [OF assms(2) _ m31 x(3)] tall m by auto
    have py: "js_mul yRatio (Fin (real ?h)) = Fin (real ?m)"
      unfolding y1 using product_longer_axis [OF assms(5)] m by simp
    have ne: "xRatio \<noteq> yRatio" using y1 x(1,2) by simp
    have "js_mul xRatio (Fin (real ?wd)) = Fin px" using px(1) x(1) by simp
    then show ?thesis using tall ne py px(2) trivial_err by (intro conjI impI exI [of _ px] exI [of _ "real ?m"]) simp_all
  qed
  show ?thesis using square quot rest by blast
qed

lemma small_source_run:
  "preprocessing rejects_nothing small_source None None new_world =
     (Inr (\<lparr>blob_handle = 3, blob_of = padded_pixels small_source,
             blob_width = None, blob_height = None\<rparr>, Fin 1, Fin (3 / 2)),
      \<lparr>trace = [Alloc 0, Alloc 1, Alloc 2, Alloc 3, Delete 0, Delete 1, Delete 2],
       fresh = 4, scheduled = 0\<rparr>)"
  by (simp add: preprocessing_cases rejects_nothing_def small_source_def new_world_def
      maxSize_of_def fl_eval)

theorem preprocessing_pads_and_ratios_witness:
  "0 < src_width small_source \<and> src_width small_source \<noteq> src_height small_source
   \<and> length (padded_pixels small_source) = maxSize_of small_source
   \<and> (Fin 1 :: jsnum) \<noteq> Fin (3 / 2)
   \<and> (\<exists>px py.
         js_mul (Fin 1) (Fin (real (src_width small_source))) = Fin px \<and>
         js_mul (Fin (3 / 2)) (Fin (real (src_height small_source))) = Fin py \<and>
         \<bar>px - real (maxSize_of small_source)\<bar> \<le> 3 * real (maxSize_of small_source) / 2 ^ 53 \<and>
         \<bar>py - real (maxSize_of small_source)\<bar> \<le> 3 * real (maxSize_of small_source) / 2 ^ 53 \<and>
         px = real (maxSize_of small_source))"
proof -
  have dims: "0 < src_width small_source" "0 < src_height small_source"
      "src_width small_source < 2 ^ 31" "src_height small_source < 2 ^ 31"
    by (simp_all add: small_source_def)
  have ne: "src_width small_source \<noteq> src_height small_source"
    and le: "src_height small_source \<le> src_width small_source"
    by (simp_all add: small_source_def)
  have b: "blob_of \<lparr>blob_handle = 3, blob_of = padded_pixels small_source,
      blob_width = None, blob_height = None\<rparr> = padded_pixels small_source"
    by simp
  note concl = preprocessing_pads_and_ratios [OF small_source_run dims, unfolded b]
  show ?thesis using concl ne le dims(1) by blast
qed

text \<open>
  The claim C2 as stated fails on a source 15 pixels wide and 11 high: \<open>yRatio\<close> is the
  double nearest to \<open>15 / 11\<close>, and the double nearest to its product with 11 is not 15.
\<close>

theorem preprocessing_ratio_product_counterexample:
  "preprocessing_ratios rejects_nothing wide_source =
     Some (Fin 1, Fin (6141272219141585 / 4503599627370496))
   \<and> js_mul (Fin (6141272219141585 / 4503599627370496)) (Fin (real (src_height wide_source)))
       = Fin (8444249301319679 / 562949953421312)
   \<and> Fin (8444249301319679 / 562949953421312) \<noteq> Fin (real (maxSize_of wide_source))"
  by (simp add: preprocessing_ratios_def preprocessing_cases rejects_nothing_def
      wide_source_def new_world_def maxSize_of_def fl_eval)

section \<open>Native buffers along detectImage\<close>

lemma releases_emit:
  "releases (emit a w) h = releases w h + (if a = Delete h then 1 else 0)"
  by (simp add: releases_def emit_def)

lemma count_list_map_Alloc: "count_list (map Alloc hs) (Delete h) = 0"
  by (induction hs) simp_all

lemma releases_allocs: "releases (allocs k w) h = releases w h"
  by (simp add: releases_def allocs_def count_list_map_Alloc)

lemma preprocessing_releases:
  assumes "preprocessing rejects source mw mh w = (res, w')"
  shows "releases w' h =
           releases w h +
           (if (\<exists>r. res = Inr r) \<and> fresh w \<le> h \<and> h < fresh w + 3 then 1 else 0)"
    and "scheduled w' = scheduled w" and "fresh w \<le> fresh w'"
proof -
  show "releases w' h =
           releases w h +
           (if (\<exists>r. res = Inr r) \<and> fresh w \<le> h \<and> h < fresh w + 3 then 1 else 0)"
    using assms unfolding preprocessing_cases Let_def
    by (auto simp: releases_allocs split: if_splits) (auto simp: releases_def)
  show "scheduled w' = scheduled w" and "fresh w \<le> fresh w'"
    using assms unfolding preprocessing_cases Let_def
    by (auto simp: allocs_def split: if_splits)
qed

lemma detectImage_begin_cases:
  "detectImage_begin rejects imageEl args w =
     (case preprocessing rejects imageEl (nth_opt (drop 2 (inputShape args)) 0)
             (nth_opt (drop 2 (inputShape args)) 1) w of
        (Inl e, w1) \<Rightarrow> (Inl e, w1)
      | (Inr (input, xRatio, yRatio), w1) \<Rightarrow>
          if rejects (NewTensor (inputShape args))
          then (Inl (LibraryException (NewTensor (inputShape args))), w1)
          else if rejects NewConfigTensor then (Inl (LibraryException NewConfigTensor), w1)
          else (Inr \<lparr>ctx_input = input, ctx_xRatio = xRatio, ctx_yRatio = yRatio,
                     ctx_tensor = \<lparr>it_blob = input, it_dims = inputShape args\<rparr>,
                     ctx_config = map fround [topk args, iouThreshold args, scoreThreshold args]\<rparr>,
                emit (NetRun \<lparr>it_blob = input, it_dims = inputShape args\<rparr>) w1))"
  by (simp add: detectImage_begin_def bind_def new_Tensor_def new_config_def guard_def
      return_def Let_def split: prod.splits sum.splits)

lemma detectImage_begin_Inr:
  assumes "detectImage_begin rejects imageEl args w = (Inr ctx, w1)"
  shows "blob_handle (ctx_input ctx) = fresh w + 3"
    and "releases w1 h = releases w h + (if fresh w \<le> h \<and> h < fresh w + 3 then 1 else 0)"
    and "scheduled w1 = scheduled w"
    and "Alloc (fresh w + 3) \<in> set (trace w1)"
proof -
  obtain input xRatio yRatio w0 where
    pp: "preprocessing rejects imageEl (nth_opt (drop 2 (inputShape args)) 0)
             (nth_opt (drop 2 (inputShape args)) 1) w = (Inr (input, xRatio, yRatio), w0)"
    and ctx: "ctx_input ctx = input" and w1: "w1 = emit (NetRun (ctx_tensor ctx)) w0"
    using assms unfolding detectImage_begin_cases
    by (auto split: prod.splits sum.splits if_splits)
  show "blob_handle (ctx_input ctx) = fresh w + 3"
    using preprocessing_Inr(2) [OF pp] ctx by simp
  show "releases w1 h = releases w h + (if fresh w \<le> h \<and> h < fresh w + 3 then 1 else 0)"
    using preprocessing_releases(1) [OF pp, of h] by (simp add: w1 releases_emit)
  show "scheduled w1 = scheduled w"
    using preprocessing_releases(2) [OF pp] by (simp add: w1 emit_def)
  show "Alloc (fresh w + 3) \<in> set (trace w1)"
    using preprocessing_Inr(5) [OF pp] by (simp add: w1 emit_def)
qed

lemma detectImage_begin_Inl:
  assumes "detectImage_begin rejects imageEl args w = (Inl e, w1)"
  shows "\<exists>c. e = LibraryException c \<and> rejects c"
    and "releases w1 h \<le> releases w h + (if fresh w \<le> h \<and> h < fresh w + 3 then 1 else 0)"
    and "scheduled w1 = scheduled w"
proof -
  obtain res where
    pp: "preprocessing rejects imageEl (nth_opt (drop 2 (inputShape args)) 0)
             (nth_opt (drop 2 (inputShape args)) 1) w = (res, w1)"
    and e: "res = Inl e \<or> (\<exists>r. res = Inr r) \<and>
        (e = LibraryException (NewTensor (inputShape args)) \<and> rejects (NewTensor (inputShape args))
         \<or> e = LibraryException NewConfigTensor \<and> rejects NewConfigTensor)"
    using assms unfolding detectImage_begin_cases
    by (auto split: prod.splits sum.splits if_splits)
  show "\<exists>c. e = LibraryException c \<and> rejects c"
    using e preprocessing_Inl(1) [of rejects imageEl _ _ w e w1] pp by auto
  show "releases w1 h \<le> releases w h + (if fresh w \<le> h \<and> h < fresh w + 3 then 1 else 0)"
    using preprocessing_releases(1) [OF pp, of h] by simp
  show "scheduled w1 = scheduled w"
    using preprocessing_releases(2) [OF pp] .
qed

text \<open>
  Claim C8, as amended. Whatever the libraries and the backend do, no native buffer of a
  detectImage invocation is released more than once. When the invocation completes, each
  of the four buffers of preprocessing (the read, color-converted and padded matrices and
  the input blob) has been released exactly once. When a backend invocation rejects, the
  three matrices have been released exactly once and the input blob, which has been
  allocated, is not released.
\<close>

theorem detectImage_releases:
  assumes "detectImage rejects imageEl sess args callback w = (res, w')"
    and "\<forall>u h. releases (callback u) h = releases u h"
    and "\<forall>h\<ge>fresh w. releases w h = 0"
  shows "(\<forall>h\<ge>fresh w. releases w' h \<le> 1)
       \<and> (res = Inr () \<longrightarrow> (\<forall>h. fresh w \<le> h \<and> h < fresh w + 4 \<longrightarrow> releases w' h = 1))
       \<and> (\<forall>reason. res = Inl (InferenceBackendError reason) \<longrightarrow>
            releases w' (fresh w) = 1 \<and> releases w' (fresh w + 1) = 1 \<and>
            releases w' (fresh w + 2) = 1 \<and> releases w' (fresh w + 3) = 0 \<and>
            Alloc (fresh w + 3) \<in> set (trace w'))"
proof (cases "detectImage_begin rejects imageEl args w")
  case (Pair r w1)
  show ?thesis
  proof (cases r)
    case (Inl e)
    with Pair have b: "detectImage_begin rejects imageEl args w = (Inl e, w1)" by simp
    have res: "res = Inl e" "w' = w1"
      using assms(1) b by (simp_all add: detectImage_def bind_def)
    obtain c where c: "e = LibraryException c" using detectImage_begin_Inl(1) [OF b] by blast
    have "releases w' h \<le> 1" if "fresh w \<le> h" for h
      using detectImage_begin_Inl(2) [OF b, of h] assms(3) that unfolding res(2)
      by (auto split: if_splits)
    then show ?thesis using res(1) c by simp
  next
    case (Inr ctx)
    with Pair have b: "detectImage_begin rejects imageEl args w = (Inr ctx, w1)" by simp
    note bi = detectImage_begin_Inr [OF b]
    have rel1: "releases w1 h = (if h < fresh w + 3 then 1 else 0)" if "fresh w \<le> h" for h
      using bi(2) [of h] assms(3) that by simp
    show ?thesis
    proof (cases "net sess (ctx_tensor ctx)")
      case (Inl reason)
      then have res: "res = Inl (InferenceBackendError reason)" "w' = w1"
        using assms(1) b by (simp_all add: detectImage_def bind_def)
      show ?thesis unfolding res using rel1 bi(4) by simp
    next
      case out: (Inr output0)
      show ?thesis
      proof (cases "nms sess output0 (ctx_config ctx)")
        case (Inl reason)
        then have res: "res = Inl (InferenceBackendError reason)"
            "w' = detectImage_resume_net ctx output0 w1"
          using assms(1) b out by (simp_all add: detectImage_def bind_def Let_def)
        have "releases w' h = releases w1 h" for h
          by (simp add: res(2) detectImage_resume_net_def releases_emit)
        moreover have "Alloc (fresh w + 3) \<in> set (trace w')"
          using bi(4) by (simp add: res(2) detectImage_resume_net_def emit_def)
        ultimately show ?thesis unfolding res(1) using rel1 by simp
      next
        case (Inr selected)
        then have res: "res = Inr ()"
            "w' = detectImage_resume_nms ctx selected callback (detectImage_resume_net ctx output0 w1)"
          using assms(1) b out by (simp_all add: detectImage_def bind_def Let_def)
        have "releases w' h = releases w1 h + (if h = fresh w + 3 then 1 else 0)" for h
          using assms(2) bi(1)
          by (simp add: res(2) detectImage_resume_nms_def detectImage_resume_net_def
              renderBoxes_def releases_emit Let_def)
        then show ?thesis unfolding res(1) using rel1 by simp
      qed
    qed
  qed
qed

lemma example_run_begin:
  "detectImage_begin rejects_nothing small_source example_args new_world =
     (Inr example_ctx,
      \<lparr>trace = [Alloc 0, Alloc 1, Alloc 2, Alloc 3, Delete 0, Delete 1, Delete 2,
                NetRun (ctx_tensor example_ctx)],
       fresh = 4, scheduled = 0\<rparr>)"
  by (simp add: detectImage_begin_cases preprocessing_cases rejects_nothing_def
      small_source_def [THEN arg_cong [of _ _ src_width]]
      small_source_def [THEN arg_cong [of _ _ src_height]]
      example_args_def new_world_def maxSize_of_def nth_opt_def emit_def fl_eval
      example_ctx_def example_blob_def
      del: fround.simps list.map)

theorem detectImage_releases_witness:
  "fst (detectImage rejects_nothing small_source example_session example_args id new_world)
     = Inr ()
   \<and> releases (snd (detectImage rejects_nothing small_source example_session example_args id
         new_world)) 3 = 1
   \<and> releases (snd (detectImage rejects_nothing small_source example_session example_args id
         new_world)) 0 = 1"
proof -
  let ?D = "detectImage rejects_nothing small_source example_session example_args id new_world"
  have f: "fst ?D = Inr ()"
    by (simp add: detectImage_def bind_def example_run_begin example_session_def Let_def
        del: fround.simps list.map)
  then have run: "?D = (Inr (), snd ?D)" by (metis prod.collapse)
  have cb: "\<forall>u h. releases (id u) h = releases u h" by simp
  have fr: "\<forall>h\<ge>fresh new_world. releases new_world h = 0"
    by (simp add: releases_def new_world_def)
  have n: "fresh new_world = 0" by (simp add: new_world_def)
  from detectImage_releases [OF run cb fr] f
  show ?thesis unfolding n by simp
qed

text \<open>
  The claim C8 as stated fails when the network rejects: the input blob, buffer 3, has
  been allocated and is never released.
\<close>

theorem detectImage_leak_counterexample:
  "fst (detectImage rejects_nothing small_source failing_session example_args id new_world)
     = Inl (InferenceBackendError ''out of memory'')
   \<and> Alloc 3 \<in> set (trace (snd (detectImage rejects_nothing small_source failing_session
         example_args id new_world)))
   \<and> releases (snd (detectImage rejects_nothing small_source failing_session example_args id
         new_world)) 3 = 0"
  by (simp add: detectImage_def bind_def example_run_begin failing_session_def releases_def
      del: fround.simps list.map)

section \<open>The number of boxes\<close>

text \<open>
  Claim C3. When the tensor selected by the backend has shape \<open>[1, N, rowWidth]\<close> with
  \<open>N \<le> topk\<close>, detectImage builds exactly \<open>N\<close> boxes, which is at most \<open>topk\<close>, and the list
  of these boxes is what it passes to the renderer.
\<close>

theorem detectImage_box_count:
  assumes "dims selected = [1, N, rowWidth]"
    and "js_le (Fin (real N)) (topk args)"
  shows "length (detectImage_boxes selected (ctx_xRatio ctx) (ctx_yRatio ctx)) = N
       \<and> js_le (Fin (real (length (detectImage_boxes selected (ctx_xRatio ctx) (ctx_yRatio ctx)))))
           (topk args)
       \<and> detectImage_resume_nms ctx selected callback w =
           emit (Delete (blob_handle (ctx_input ctx)))
             (callback (renderBoxes
                (detectImage_boxes selected (ctx_xRatio ctx) (ctx_yRatio ctx)) w))"
proof -
  have "dim selected 1 = Some N" using assms(1) by (simp add: dim_def)
  then have "length (detectImage_boxes selected (ctx_xRatio ctx) (ctx_yRatio ctx)) = N"
    by (rule boxes_length)
  then show ?thesis using assms(2) by (simp add: detectImage_resume_nms_def Let_def)
qed

theorem detectImage_box_count_witness:
  "length (detectImage_boxes example_selected (ctx_xRatio example_ctx) (ctx_yRatio example_ctx))
     = 2
   \<and> js_le (Fin (real (length (detectImage_boxes example_selected (ctx_xRatio example_ctx)
         (ctx_yRatio example_ctx))))) (topk example_args)"
proof -
  have d: "dims example_selected = [1, 2, 6]" by (simp add: example_selected_def)
  have k: "js_le (Fin (real 2)) (topk example_args)"
    by (simp add: js_le_def example_args_def)
  note th = detectImage_box_count [OF d k, of example_ctx id new_world]
  show ?thesis using th by (elim conjE) (intro conjI, assumption+)
qed

section \<open>The pump\<close>

lemma request_follows_render_quiet:
  "RequestFrame \<notin> set ys \<Longrightarrow> request_follows_render ys"
  by (induction ys rule: request_follows_render.induct) auto

lemma request_follows_render_Cons:
  assumes "a \<noteq> RequestFrame" and "request_follows_render ys"
  shows "request_follows_render (a # ys)"
proof (cases ys)
  case Nil
  then show ?thesis using assms(1) by (cases a) simp_all
next
  case (Cons b zs)
  then show ?thesis using assms by (cases a; cases b) simp_all
qed

lemma request_follows_render_append:
  "request_follows_render xs \<Longrightarrow> request_follows_render ys \<Longrightarrow>
   request_follows_render (xs @ ys)"
  by (induction xs rule: request_follows_render.induct)
     (auto intro: request_follows_render_Cons)

lemma preprocessing_trace:
  assumes "preprocessing rejects source mw mh w = (res, w')"
  shows "\<exists>ys. trace w' = trace w @ ys \<and> set ys \<subseteq> range Alloc \<union> range Delete"
  using assms unfolding preprocessing_cases Let_def
  by (auto simp: allocs_def split: if_splits)

lemma detectImage_begin_trace:
  assumes "detectImage_begin rejects imageEl args w = (res, w')"
  shows "\<exists>ys. trace w' = trace w @ ys \<and> RequestFrame \<notin> set ys \<and> ClearRect \<notin> set ys"
proof -
  obtain r w0 where pp: "preprocessing rejects imageEl (nth_opt (drop 2 (inputShape args)) 0)
             (nth_opt (drop 2 (inputShape args)) 1) w = (r, w0)"
    by (cases "preprocessing rejects imageEl (nth_opt (drop 2 (inputShape args)) 0)
             (nth_opt (drop 2 (inputShape args)) 1) w") auto
  obtain ys where ys: "trace w0 = trace w @ ys" "set ys \<subseteq> range Alloc \<union> range Delete"
    using preprocessing_trace [OF pp] by blast
  have q: "RequestFrame \<notin> set ys" "ClearRect \<notin> set ys" using ys(2) by auto
  have "w' = w0 \<or> (\<exists>t. w' = emit (NetRun t) w0)"
    using assms pp unfolding detectImage_begin_cases
    by (auto split: sum.splits prod.splits if_splits)
  then show ?thesis
  proof
    assume "w' = w0"
    then show ?thesis using ys(1) q by blast
  next
    assume "\<exists>t. w' = emit (NetRun t) w0"
    then obtain t where "w' = emit (NetRun t) w0" by blast
    then have "trace w' = trace w @ (ys @ [NetRun t])" by (simp add: emit_def ys(1))
    moreover have "RequestFrame \<notin> set (ys @ [NetRun t])" "ClearRect \<notin> set (ys @ [NetRun t])"
      using q by simp_all
    ultimately show ?thesis by blast
  qed
qed

lemma detectImage_begin_scheduled:
  assumes "detectImage_begin rejects imageEl args w = (res, w')"
  shows "scheduled w' = scheduled w"
  using assms detectImage_begin_Inl(3) detectImage_begin_Inr(3) by (cases res) blast+

text \<open>One call of \<open>detect\<close> on a pump that waits for nothing.\<close>

lemma detect_stop:
  assumes "videoWidth v = 0 \<and> srcObject v = None"
  shows "detect rejects args v p = p\<lparr>pw := emit ClearRect (pw p)\<rparr>"
  using assms by (simp add: detect_def)

lemma detect_run:
  assumes "\<not> (videoWidth v = 0 \<and> srcObject v = None)"
  shows "scheduled (pw (detect rejects args v p)) = scheduled (pw p)"
    and "length (awaiting (detect rejects args v p)) \<le> length (awaiting p) + 1"
    and "\<exists>rest. trace (pw (detect rejects args v p)) =
           trace (pw p) @ DrawFrame (videoWidth v) (videoHeight v) # rest \<and>
           RequestFrame \<notin> set rest \<and> ClearRect \<notin> set rest"
proof -
  define w1 where "w1 = emit (DrawFrame (videoWidth v) (videoHeight v)) (pw p)"
  define image where "image = \<lparr>src_width = videoWidth v, src_height = videoHeight v,
      src_pixel = drawn v (videoWidth v) (videoHeight v)\<rparr>"
  have cap: "captureVideo v None (pw p) = (image, w1)"
    by (simp add: captureVideo_def w1_def image_def Let_def)
  obtain r w2 where b: "detectImage_begin rejects image args w1 = (r, w2)"
    by (cases "detectImage_begin rejects image args w1") auto
  obtain ys where ys: "trace w2 = trace w1 @ ys" "RequestFrame \<notin> set ys" "ClearRect \<notin> set ys"
    using detectImage_begin_trace [OF b] by blast
  have s2: "scheduled w2 = scheduled (pw p)"
    using detectImage_begin_scheduled [OF b] by (simp add: w1_def emit_def)
  have d: "detect rejects args v p =
      (case r of Inl e \<Rightarrow> p\<lparr>pw := emit (Unhandled e) w2\<rparr>
               | Inr ctx \<Rightarrow> p\<lparr>pw := w2, awaiting := awaiting p @ [(AwaitNet, ctx)]\<rparr>)"
    using assms by (auto simp: detect_def cap b split: sum.splits)
  show "scheduled (pw (detect rejects args v p)) = scheduled (pw p)"
    unfolding d using s2 by (simp add: emit_def split: sum.splits)
  show "length (awaiting (detect rejects args v p)) \<le> length (awaiting p) + 1"
    unfolding d by (simp split: sum.splits)
  show "\<exists>rest. trace (pw (detect rejects args v p)) =
           trace (pw p) @ DrawFrame (videoWidth v) (videoHeight v) # rest \<and>
           RequestFrame \<notin> set rest \<and> ClearRect \<notin> set rest"
  proof (cases r)
    case (Inl e)
    then have "trace (pw (detect rejects args v p)) =
        trace (pw p) @ DrawFrame (videoWidth v) (videoHeight v) # (ys @ [Unhandled e])"
      unfolding d by (simp add: emit_def ys(1) w1_def)
    moreover have "RequestFrame \<notin> set (ys @ [Unhandled e])" "ClearRect \<notin> set (ys @ [Unhandled e])"
      using ys(2,3) by simp_all
    ultimately show ?thesis by blast
  next
    case (Inr ctx)
    then have "trace (pw (detect rejects args v p)) =
        trace (pw p) @ DrawFrame (videoWidth v) (videoHeight v) # ys"
      unfolding d by (simp add: emit_def ys(1) w1_def)
    then show ?thesis using ys(2,3) by blast
  qed
qed

text \<open>The invariant of the pump, and what every reachable state satisfies.\<close>

lemma detect_invariant:
  assumes "scheduled (pw p) = 0" and "awaiting p = []" and "request_follows_render (trace (pw p))"
  shows "scheduled (pw (detect rejects args v p)) = 0"
    and "length (awaiting (detect rejects args v p)) \<le> 1"
    and "request_follows_render (trace (pw (detect rejects args v p)))"
proof -
  show "scheduled (pw (detect rejects args v p)) = 0"
    using assms(1) detect_run(1) [of v rejects args p]
    by (cases "videoWidth v = 0 \<and> srcObject v = None") (simp_all add: detect_stop emit_def)
  show "length (awaiting (detect rejects args v p)) \<le> 1"
    using assms(2) detect_run(2) [of v rejects args p]
    by (cases "videoWidth v = 0 \<and> srcObject v = None") (simp_all add: detect_stop)
  show "request_follows_render (trace (pw (detect rejects args v p)))"
  proof (cases "videoWidth v = 0 \<and> srcObject v = None")
    case True
    then show ?thesis
      using request_follows_render_append [OF assms(3), of "[ClearRect]"]
      by (simp add: detect_stop emit_def)
  next
    case False
    from detect_run(3) [OF False, of rejects args p]
    obtain rest where rest: "trace (pw (detect rejects args v p)) =
        trace (pw p) @ DrawFrame (videoWidth v) (videoHeight v) # rest"
        "RequestFrame \<notin> set rest" by blast
    have "request_follows_render (DrawFrame (videoWidth v) (videoHeight v) # rest)"
      using rest(2) by (intro request_follows_render_quiet) simp
    then show ?thesis
      unfolding rest(1) using assms(3) by (rule request_follows_render_append [rotated])
  qed
qed

lemma settle_cases:
  assumes "awaiting p = [(st, ctx)]"
  shows "settle 0 (Inl reason) p =
           p\<lparr>pw := emit (Unhandled (InferenceBackendError reason)) (pw p), awaiting := []\<rparr>"
    and "st = AwaitNet \<Longrightarrow> settle 0 (Inr t) p =
           p\<lparr>pw := detectImage_resume_net ctx t (pw p), awaiting := [(AwaitNms, ctx)]\<rparr>"
    and "st = AwaitNms \<Longrightarrow> settle 0 (Inr t) p =
           p\<lparr>pw := detectImage_resume_nms ctx t request_frame (pw p), awaiting := []\<rparr>"
  using assms by (simp_all add: settle_def remove_nth_def)

lemma resume_nms_request_frame:
  "trace (detectImage_resume_nms ctx t request_frame w) =
     trace w @ [Render (detectImage_boxes t (ctx_xRatio ctx) (ctx_yRatio ctx)), RequestFrame,
                Delete (blob_handle (ctx_input ctx))]"
  "scheduled (detectImage_resume_nms ctx t request_frame w) = scheduled w + 1"
  by (simp_all add: detectImage_resume_nms_def renderBoxes_def request_frame_def emit_def Let_def)

lemma settle_ok:
  assumes "pump_ok p" shows "pump_ok (settle i r p)"
proof (cases "length (awaiting p) \<le> i")
  case True
  then show ?thesis using assms by (simp add: settle_def)
next
  case False
  then have "length (awaiting p) = 1" "i = 0" "scheduled (pw p) = 0"
    using assms by (auto simp: pump_ok_def)
  then obtain st ctx where a: "awaiting p = [(st, ctx)]"
    by (cases "awaiting p") auto
  have rfr: "request_follows_render (trace (pw p))" using assms by (simp add: pump_ok_def)
  note sc = settle_cases [OF a]
  show ?thesis
  proof (cases r)
    case (Inl reason)
    show ?thesis
      unfolding \<open>i = 0\<close> Inl sc(1)
      using \<open>scheduled (pw p) = 0\<close>
        request_follows_render_append [OF rfr, of "[Unhandled (InferenceBackendError reason)]"]
      by (simp add: pump_ok_def emit_def)
  next
    case (Inr t)
    show ?thesis
    proof (cases st)
      case AwaitNet
      show ?thesis
        unfolding \<open>i = 0\<close> Inr sc(2) [OF AwaitNet]
        using \<open>scheduled (pw p) = 0\<close>
          request_follows_render_append [OF rfr, of "[NmsRun t (ctx_config ctx)]"]
        by (simp add: pump_ok_def detectImage_resume_net_def emit_def)
    next
      case AwaitNms
      show ?thesis
        unfolding \<open>i = 0\<close> Inr sc(3) [OF AwaitNms]
        using \<open>scheduled (pw p) = 0\<close>
          request_follows_render_append [OF rfr,
            of "[Render (detectImage_boxes t (ctx_xRatio ctx) (ctx_yRatio ctx)), RequestFrame,
                 Delete (blob_handle (ctx_input ctx))]"]
        by (simp add: pump_ok_def resume_nms_request_frame)
    qed
  qed
qed

lemma pump_step_ok:
  assumes "pump_ok p" shows "pump_ok (pump_step rejects args ev p)"
proof (cases ev)
  case (AnimationFrame v)
  show ?thesis
  proof (cases "scheduled (pw p) = 0")
    case True
    then show ?thesis using assms by (simp add: pump_step_def AnimationFrame)
  next
    case False
    define q where "q = p\<lparr>pw := (pw p)\<lparr>scheduled := scheduled (pw p) - 1\<rparr>\<rparr>"
    have "length (awaiting p) + scheduled (pw p) \<le> 1"
      using assms by (simp add: pump_ok_def)
    with False have "length (awaiting p) = 0 \<and> scheduled (pw p) = 1" by linarith
    then have q: "scheduled (pw q) = 0" "awaiting q = []"
        "request_follows_render (trace (pw q))"
      using assms by (simp_all add: pump_ok_def q_def)
    have "pump_step rejects args ev p = detect rejects args v q"
      using False by (simp add: pump_step_def AnimationFrame q_def)
    then show ?thesis
      using detect_invariant [OF q, of rejects args v] by (simp add: pump_ok_def)
  qed
next
  case (Settled i r)
  then show ?thesis using settle_ok [OF assms] by (simp add: pump_step_def)
qed

lemma pump_run_ok: "pump_ok p \<Longrightarrow> pump_ok (pump_run rejects args evs p)"
  by (induction evs arbitrary: p) (simp_all add: pump_step_ok)

lemma detectVideo_ok: "pump_ok (detectVideo rejects args v)"
  unfolding detectVideo_def pump_ok_def
  using detect_invariant [of "\<lparr>pw = new_world, awaiting = []\<rparr>" rejects args v]
  by (simp add: new_world_def)

lemma reachable_ok: "pump_ok (pump_run rejects args evs (detectVideo rejects args v))"
  by (rule pump_run_ok [OF detectVideo_ok])

lemma pump_stuck:
  assumes "scheduled (pw p) = 0" and "awaiting p = []"
  shows "pump_run rejects args evs p = p"
proof (induction evs)
  case Nil
  show ?case by simp
next
  case (Cons ev evs)
  have "pump_step rejects args ev p = p"
    using assms by (cases ev) (simp_all add: pump_step_def settle_def)
  then show ?case using Cons.IH by simp
qed

lemma pump_step_schedules:
  assumes "pump_ok p"
    and "scheduled (pw p) < scheduled (pw (pump_step rejects args ev p))"
  shows "\<exists>i t ctx. ev = Settled i (Inr t) \<and> i < length (awaiting p) \<and>
           awaiting p ! i = (AwaitNms, ctx)"
proof (cases ev)
  case (AnimationFrame v)
  show ?thesis
  proof (cases "scheduled (pw p) = 0")
    case True
    then show ?thesis using assms(2) by (simp add: pump_step_def AnimationFrame)
  next
    case False
    define q where "q = p\<lparr>pw := (pw p)\<lparr>scheduled := scheduled (pw p) - 1\<rparr>\<rparr>"
    have "length (awaiting p) + scheduled (pw p) \<le> 1"
      using assms(1) by (simp add: pump_ok_def)
    with False have "length (awaiting p) = 0 \<and> scheduled (pw p) = 1" by linarith
    then have q: "scheduled (pw q) = 0" "awaiting q = []"
        "request_follows_render (trace (pw q))"
      using assms(1) by (simp_all add: pump_ok_def q_def)
    have "pump_step rejects args ev p = detect rejects args v q"
      using False by (simp add: pump_step_def AnimationFrame q_def)
    then show ?thesis
      using detect_invariant(1) [OF q, of rejects args v] assms(2) by simp
  qed
next
  case (Settled i r)
  show ?thesis
  proof (cases "length (awaiting p) \<le> i")
    case True
    then show ?thesis using assms(2) by (simp add: pump_step_def Settled settle_def)
  next
    case False
    then have "length (awaiting p) = 1" "i = 0"
      using assms(1) by (auto simp: pump_ok_def)
    then obtain st ctx where a: "awaiting p = [(st, ctx)]"
      by (cases "awaiting p") auto
    note sc = settle_cases [OF a]
    show ?thesis
    proof (cases r)
      case (Inl reason)
      then show ?thesis
        using assms(2) sc(1) [of reason] \<open>i = 0\<close> by (simp add: pump_step_def Settled emit_def)
    next
      case (Inr t)
      show ?thesis
      proof (cases st)
        case AwaitNet
        then show ?thesis
          using assms(2) sc(2) [of t] \<open>i = 0\<close> Inr
          by (simp add: pump_step_def Settled detectImage_resume_net_def emit_def)
      next
        case AwaitNms
        then show ?thesis using a \<open>i = 0\<close> Inr Settled by simp
      qed
    qed
  qed
qed

text \<open>
  Claim C9. In every run of the pump, after any sequence of events, the inferences in
  flight and the requested frame are at most one in all: at most one inference is in
  flight, and none while a tick is requested. A frame is requested only when the
  postprocessing of the current frame has settled with its output, and in the trace every
  request comes directly after the call of the renderer.
\<close>

theorem pump_one_inference_in_flight:
  "length (awaiting (pump_run rejects args evs (detectVideo rejects args v)))
     + scheduled (pw (pump_run rejects args evs (detectVideo rejects args v))) \<le> 1
   \<and> request_follows_render (trace (pw (pump_run rejects args evs (detectVideo rejects args v))))
   \<and> (scheduled (pw (pump_run rejects args evs (detectVideo rejects args v)))
        < scheduled (pw (pump_step rejects args ev
            (pump_run rejects args evs (detectVideo rejects args v)))) \<longrightarrow>
       (\<exists>i t ctx. ev = Settled i (Inr t) \<and>
          i < length (awaiting (pump_run rejects args evs (detectVideo rejects args v))) \<and>
          awaiting (pump_run rejects args evs (detectVideo rejects args v)) ! i
            = (AwaitNms, ctx)))"
  using reachable_ok [of rejects args evs v]
    pump_step_schedules [of "pump_run rejects args evs (detectVideo rejects args v)" rejects args ev]
  by (simp add: pump_ok_def)

lemma example_pump_start:
  "detectVideo rejects_nothing example_args example_video =
     \<lparr>pw = \<lparr>trace = [DrawFrame 3 2, Alloc 0, Alloc 1, Alloc 2, Alloc 3, Delete 0, Delete 1,
                     Delete 2, NetRun (ctx_tensor example_ctx)],
            fresh = 4, scheduled = 0\<rparr>,
      awaiting = [(AwaitNet, example_ctx)]\<rparr>"
proof -
  have cap: "captureVideo example_video None new_world =
      (small_source, emit (DrawFrame 3 2) new_world)"
    by (simp add: captureVideo_def example_video_def small_source_def Let_def)
  have b: "detectImage_begin rejects_nothing small_source example_args
        (emit (DrawFrame 3 2) new_world) =
      (Inr example_ctx,
       \<lparr>trace = [DrawFrame 3 2, Alloc 0, Alloc 1, Alloc 2, Alloc 3, Delete 0, Delete 1,
                 Delete 2, NetRun (ctx_tensor example_ctx)],
        fresh = 4, scheduled = 0\<rparr>)"
    by (simp add: detectImage_begin_cases preprocessing_cases rejects_nothing_def
        small_source_def [THEN arg_cong [of _ _ src_width]]
        small_source_def [THEN arg_cong [of _ _ src_height]]
        example_args_def new_world_def maxSize_of_def nth_opt_def emit_def fl_eval
        example_ctx_def example_blob_def
        del: fround.simps list.map)
  have v: "\<not> (videoWidth example_video = 0 \<and> srcObject example_video = None)"
    by (simp add: example_video_def)
  show ?thesis
    using v by (simp add: detectVideo_def detect_def cap b)
qed

lemma example_pump_nms:
  "pump_run rejects_nothing example_args [Settled 0 (Inr example_selected)]
     (detectVideo rejects_nothing example_args example_video) =
     \<lparr>pw = \<lparr>trace = [DrawFrame 3 2, Alloc 0, Alloc 1, Alloc 2, Alloc 3, Delete 0, Delete 1,
                     Delete 2, NetRun (ctx_tensor example_ctx),
                     NmsRun example_selected (ctx_config example_ctx)],
            fresh = 4, scheduled = 0\<rparr>,
      awaiting = [(AwaitNms, example_ctx)]\<rparr>"
  by (simp add: example_pump_start pump_step_def settle_def remove_nth_def
      detectImage_resume_net_def emit_def)

theorem pump_one_inference_in_flight_witness:
  "scheduled (pw (pump_run rejects_nothing example_args [Settled 0 (Inr example_selected)]
        (detectVideo rejects_nothing example_args example_video)))
     < scheduled (pw (pump_step rejects_nothing example_args (Settled 0 (Inr example_selected))
        (pump_run rejects_nothing example_args [Settled 0 (Inr example_selected)]
          (detectVideo rejects_nothing example_args example_video))))
   \<and> length (awaiting (pump_run rejects_nothing example_args [Settled 0 (Inr example_selected)]
        (detectVideo rejects_nothing example_args example_video)))
      + scheduled (pw (pump_run rejects_nothing example_args [Settled 0 (Inr example_selected)]
        (detectVideo rejects_nothing example_args example_video))) \<le> 1
   \<and> (\<exists>i t ctx. Settled 0 (Inr example_selected) = Settled i (Inr t) \<and>
          awaiting (pump_run rejects_nothing example_args [Settled 0 (Inr example_selected)]
            (detectVideo rejects_nothing example_args example_video)) ! i = (AwaitNms, ctx))"
proof -
  let ?P = "pump_run rejects_nothing example_args [Settled 0 (Inr example_selected)]
        (detectVideo rejects_nothing example_args example_video)"
  have inc: "scheduled (pw ?P)
      < scheduled (pw (pump_step rejects_nothing example_args (Settled 0 (Inr example_selected)) ?P))"
    unfolding example_pump_nms
    by (simp add: pump_step_def settle_def remove_nth_def resume_nms_request_frame)
  note th = pump_one_inference_in_flight [of rejects_nothing example_args
      "[Settled 0 (Inr example_selected)]" example_video "Settled 0 (Inr example_selected)"]
  show ?thesis using th inc by blast
qed

section \<open>Ticks\<close>

lemma tick_due:
  assumes "pump_ok p" and "0 < scheduled (pw p)"
  shows "pump_step rejects args (AnimationFrame v) p =
           detect rejects args v (p\<lparr>pw := (pw p)\<lparr>scheduled := 0\<rparr>\<rparr>)"
    and "awaiting p = []"
proof -
  have "length (awaiting p) + scheduled (pw p) \<le> 1"
    using assms(1) by (simp add: pump_ok_def)
  with assms(2) have "length (awaiting p) = 0 \<and> scheduled (pw p) = 1" by linarith
  then show "awaiting p = []"
    and "pump_step rejects args (AnimationFrame v) p =
           detect rejects args v (p\<lparr>pw := (pw p)\<lparr>scheduled := 0\<rparr>\<rparr>)"
    by (simp_all add: pump_step_def)
qed

lemma detect_stop_stuck:
  assumes "videoWidth v = 0 \<and> srcObject v = None"
    and "scheduled (pw q) = 0" and "awaiting q = []"
  shows "trace (pw (detect rejects args v q)) = trace (pw q) @ [ClearRect]"
    and "scheduled (pw (detect rejects args v q)) = 0"
    and "awaiting (detect rejects args v q) = []"
    and "pump_run rejects args evs (detect rejects args v q) = detect rejects args v q"
proof -
  show t: "trace (pw (detect rejects args v q)) = trace (pw q) @ [ClearRect]"
    and s: "scheduled (pw (detect rejects args v q)) = 0"
    and a: "awaiting (detect rejects args v q) = []"
    using assms by (simp_all add: detect_stop emit_def)
  show "pump_run rejects args evs (detect rejects args v q) = detect rejects args v q"
    using s a by (rule pump_stuck)
qed

section \<open>A run of the pump up to a requested frame\<close>

lemma example_pump_scheduled:
  "pump_run rejects_nothing example_args
     [Settled 0 (Inr example_selected), Settled 0 (Inr example_selected)]
     (detectVideo rejects_nothing example_args example_video) =
     \<lparr>pw = \<lparr>trace = [DrawFrame 3 2, Alloc 0, Alloc 1, Alloc 2, Alloc 3, Delete 0, Delete 1,
                     Delete 2, NetRun (ctx_tensor example_ctx),
                     NmsRun example_selected (ctx_config example_ctx),
                     Render (detectImage_boxes example_selected (Fin 1) (Fin (3 / 2))),
                     RequestFrame, Delete 3],
            fresh = 4, scheduled = 1\<rparr>,
      awaiting = []\<rparr>"
proof -
  have "pump_run rejects_nothing example_args
     [Settled 0 (Inr example_selected), Settled 0 (Inr example_selected)]
     (detectVideo rejects_nothing example_args example_video) =
     pump_step rejects_nothing example_args (Settled 0 (Inr example_selected))
       (pump_run rejects_nothing example_args [Settled 0 (Inr example_selected)]
          (detectVideo rejects_nothing example_args example_video))"
    by simp
  also have "\<dots> = \<lparr>pw = \<lparr>trace = [DrawFrame 3 2, Alloc 0, Alloc 1, Alloc 2, Alloc 3, Delete 0,
                     Delete 1, Delete 2, NetRun (ctx_tensor example_ctx),
                     NmsRun example_selected (ctx_config example_ctx),
                     Render (detectImage_boxes example_selected (Fin 1) (Fin (3 / 2))),
                     RequestFrame, Delete 3],
            fresh = 4, scheduled = 1\<rparr>,
      awaiting = []\<rparr>"
    unfolding example_pump_nms
    by (simp add: pump_step_def settle_def remove_nth_def detectImage_resume_nms_def
        renderBoxes_def request_frame_def emit_def Let_def example_ctx_def example_blob_def
        del: fround.simps list.map)
  finally show ?thesis .
qed

section \<open>A rejection of the backend stops the pump\<close>

text \<open>
  The claim C4 as stated fails: when the network rejects during the first tick, the
  rejection is left as an unhandled rejection, no frame has been requested, and the
  next animation frame does nothing.
\<close>

theorem pump_rejection_counterexample:
  "trace (pw (pump_run rejects_nothing example_args [Settled 0 (Inl ''out of memory'')]
       (detectVideo rejects_nothing example_args example_video))) =
     [DrawFrame 3 2, Alloc 0, Alloc 1, Alloc 2, Alloc 3, Delete 0, Delete 1, Delete 2,
      NetRun (ctx_tensor example_ctx), Unhandled (InferenceBackendError ''out of memory'')]
   \<and> scheduled (pw (pump_run rejects_nothing example_args [Settled 0 (Inl ''out of memory'')]
       (detectVideo rejects_nothing example_args example_video))) = 0
   \<and> pump_step rejects_nothing example_args (AnimationFrame example_video)
       (pump_run rejects_nothing example_args [Settled 0 (Inl ''out of memory'')]
         (detectVideo rejects_nothing example_args example_video))
     = pump_run rejects_nothing example_args [Settled 0 (Inl ''out of memory'')]
         (detectVideo rejects_nothing example_args example_video)"
  by (simp add: example_pump_start pump_step_def settle_def remove_nth_def emit_def)

text \<open>
  Claim C4, as amended. When a backend invocation of the frame in flight rejects, the pump
  does not handle the rejection: it is left as an unhandled rejection of the promise of
  detectFrame, nothing is rendered for that frame, no frame is requested, no inference
  remains in flight, and no later event changes the pump: it has stopped.
\<close>

theorem pump_rejection_stops_pump:
  assumes "p = pump_run rejects args evs (detectVideo rejects args v0)"
    and "i < length (awaiting p)"
  shows "trace (pw (pump_step rejects args (Settled i (Inl reason)) p))
           = trace (pw p) @ [Unhandled (InferenceBackendError reason)]
       \<and> scheduled (pw (pump_step rejects args (Settled i (Inl reason)) p)) = 0
       \<and> awaiting (pump_step rejects args (Settled i (Inl reason)) p) = []
       \<and> (\<forall>evs'. pump_run rejects args evs' (pump_step rejects args (Settled i (Inl reason)) p)
             = pump_step rejects args (Settled i (Inl reason)) p)"
proof -
  have ok: "pump_ok p" unfolding assms(1) by (rule reachable_ok)
  have "length (awaiting p) + scheduled (pw p) \<le> 1" using ok by (simp add: pump_ok_def)
  with assms(2) have l: "length (awaiting p) = 1 \<and> i = 0 \<and> scheduled (pw p) = 0" by linarith
  then obtain st ctx where a: "awaiting p = [(st, ctx)]"
    by (cases "awaiting p") auto
  have step: "pump_step rejects args (Settled i (Inl reason)) p =
      p\<lparr>pw := emit (Unhandled (InferenceBackendError reason)) (pw p), awaiting := []\<rparr>"
    using settle_cases(1) [OF a, of reason] l by (simp add: pump_step_def)
  have s: "scheduled (pw (pump_step rejects args (Settled i (Inl reason)) p)) = 0"
    and e: "awaiting (pump_step rejects args (Settled i (Inl reason)) p) = []"
    and t: "trace (pw (pump_step rejects args (Settled i (Inl reason)) p))
           = trace (pw p) @ [Unhandled (InferenceBackendError reason)]"
    unfolding step using l by (simp_all add: emit_def)
  have "pump_run rejects args evs' (pump_step rejects args (Settled i (Inl reason)) p)
      = pump_step rejects args (Settled i (Inl reason)) p" for evs'
    using s e by (rule pump_stuck)
  then show ?thesis using s e t by blast
qed

theorem pump_rejection_stops_pump_witness:
  "0 < length (awaiting (detectVideo rejects_nothing example_args example_video))
   \<and> trace (pw (pump_step rejects_nothing example_args (Settled 0 (Inl ''timeout''))
        (detectVideo rejects_nothing example_args example_video)))
      = trace (pw (detectVideo rejects_nothing example_args example_video))
          @ [Unhandled (InferenceBackendError ''timeout'')]
   \<and> scheduled (pw (pump_step rejects_nothing example_args (Settled 0 (Inl ''timeout''))
        (detectVideo rejects_nothing example_args example_video))) = 0"
proof -
  have p: "detectVideo rejects_nothing example_args example_video =
      pump_run rejects_nothing example_args [] (detectVideo rejects_nothing example_args example_video)"
    by simp
  have a: "0 < length (awaiting (detectVideo rejects_nothing example_args example_video))"
    unfolding example_pump_start by simp
  note th = pump_rejection_stops_pump [OF p a, of "''timeout''"]
  show ?thesis using th a by blast
qed

section \<open>Sources without pixels\<close>

lemma preprocessing_empty_source:
  assumes "refuses_empty rejects"
    and "src_width source = 0 \<or> src_height source = 0"
  shows "preprocessing rejects source mw mh w =
           (if rejects (Imread (src_width source) (src_height source))
            then (Inl (LibraryException (Imread (src_width source) (src_height source))), w)
            else if rejects (NewMat (src_height source) (src_width source))
            then (Inl (LibraryException (NewMat (src_height source) (src_width source))),
                  allocs 1 w)
            else (Inl (LibraryException (CvtColor (src_height source) (src_width source))),
                  allocs 2 w))"
proof -
  have "rejects (Imread (src_width source) (src_height source))
      \<or> rejects (CvtColor (src_height source) (src_width source))"
    using assms unfolding refuses_empty_def by blast
  then show ?thesis
    unfolding preprocessing_cases Let_def by auto
qed

text \<open>
  Claim C5. With a CV library that refuses images without pixels, as OpenCV.js does, a
  source of width 0 or height 0 makes preprocessing fail: the read or the color
  conversion of the source throws, before line 88. No ratio is computed, no padding
  and no resize is done, no blob is allocated or returned, and at most the two matrices
  of lines 83 and 84 have been allocated; detectImage fails with the same failure before
  it builds a tensor or calls the network.
\<close>

theorem preprocessing_fails_on_empty_source:
  assumes "refuses_empty rejects"
    and "src_width source = 0 \<or> src_height source = 0"
  shows "(\<exists>c k w'. preprocessing rejects source modelWidth modelHeight w
                  = (Inl (LibraryException c), w')
             \<and> rejects c \<and> k \<le> 2
             \<and> c \<in> {Imread (src_width source) (src_height source),
                     NewMat (src_height source) (src_width source),
                     CvtColor (src_height source) (src_width source)}
             \<and> trace w' = trace w @ map Alloc [fresh w..<fresh w + k])
       \<and> (\<forall>input xRatio yRatio w'.
             preprocessing rejects source modelWidth modelHeight w
               \<noteq> (Inr (input, xRatio, yRatio), w'))
       \<and> (\<exists>c k w'. detectImage_begin rejects source args w = (Inl (LibraryException c), w')
             \<and> rejects c \<and> k \<le> 2
             \<and> trace w' = trace w @ map Alloc [fresh w..<fresh w + k])"
proof -
  have r: "rejects (Imread (src_width source) (src_height source))
      \<or> rejects (CvtColor (src_height source) (src_width source))"
    using assms unfolding refuses_empty_def by blast
  have 1: "\<exists>c k. preprocessing rejects source mw mh w
                  = (Inl (LibraryException c), allocs k w)
             \<and> rejects c \<and> k \<le> 2
             \<and> c \<in> {Imread (src_width source) (src_height source),
                     NewMat (src_height source) (src_width source),
                     CvtColor (src_height source) (src_width source)}" for mw mh
  proof (cases "rejects (Imread (src_width source) (src_height source))")
    case True
    then show ?thesis
      unfolding preprocessing_empty_source [OF assms]
      by (intro exI [of _ "Imread (src_width source) (src_height source)"] exI [of _ 0]) simp
  next
    case False
    note nI = this
    show ?thesis
    proof (cases "rejects (NewMat (src_height source) (src_width source))")
      case True
      then show ?thesis
        unfolding preprocessing_empty_source [OF assms] using nI
        by (intro exI [of _ "NewMat (src_height source) (src_width source)"] exI [of _ 1]) simp
    next
      case False
      then show ?thesis
        unfolding preprocessing_empty_source [OF assms] using nI r
        by (intro exI [of _ "CvtColor (src_height source) (src_width source)"] exI [of _ 2])
          simp
    qed
  qed
  have tr: "trace (allocs k w) = trace w @ map Alloc [fresh w..<fresh w + k]" for k
    by (simp add: allocs_def)
  have a: "\<exists>c k w'. preprocessing rejects source modelWidth modelHeight w
                  = (Inl (LibraryException c), w')
             \<and> rejects c \<and> k \<le> 2
             \<and> c \<in> {Imread (src_width source) (src_height source),
                     NewMat (src_height source) (src_width source),
                     CvtColor (src_height source) (src_width source)}
             \<and> trace w' = trace w @ map Alloc [fresh w..<fresh w + k]"
    using 1 [of modelWidth modelHeight] tr by blast
  have b: "\<forall>input xRatio yRatio w'.
             preprocessing rejects source modelWidth modelHeight w
               \<noteq> (Inr (input, xRatio, yRatio), w')"
    using 1 [of modelWidth modelHeight] by auto
  obtain c k where ck: "preprocessing rejects source (nth_opt (drop 2 (inputShape args)) 0)
        (nth_opt (drop 2 (inputShape args)) 1) w = (Inl (LibraryException c), allocs k w)"
      "rejects c" "k \<le> 2"
    using 1 [of "nth_opt (drop 2 (inputShape args)) 0" "nth_opt (drop 2 (inputShape args)) 1"]
    by blast
  have "detectImage_begin rejects source args w = (Inl (LibraryException c), allocs k w)"
    unfolding detectImage_begin_cases ck(1) by simp
  then have c: "\<exists>c k w'. detectImage_begin rejects source args w = (Inl (LibraryException c), w')
             \<and> rejects c \<and> k \<le> 2
             \<and> trace w' = trace w @ map Alloc [fresh w..<fresh w + k]"
    using ck(2,3) tr by blast
  show ?thesis using a b c by blast
qed

theorem preprocessing_fails_on_empty_source_witness:
  "refuses_empty rejects_empty_reads
   \<and> (src_width empty_source = 0 \<or> src_height empty_source = 0)
   \<and> preprocessing rejects_empty_reads empty_source (Some 640) (Some 640) new_world
       = (Inl (LibraryException (Imread 0 5)), new_world)
   \<and> (\<forall>input xRatio yRatio w'.
         preprocessing rejects_empty_reads empty_source (Some 640) (Some 640) new_world
           \<noteq> (Inr (input, xRatio, yRatio), w'))"
proof -
  have lib: "refuses_empty rejects_empty_reads" by (simp add: refuses_empty_def)
  have z: "src_width empty_source = 0 \<or> src_height empty_source = 0"
    by (simp add: empty_source_def)
  have run: "preprocessing rejects_empty_reads empty_source (Some 640) (Some 640) new_world
       = (Inl (LibraryException (Imread 0 5)), new_world)"
    by (simp add: preprocessing_cases empty_source_def)
  note th = preprocessing_fails_on_empty_source [OF lib z, of "Some 640" "Some 640" new_world]
  show ?thesis using th lib z run by blast
qed

section \<open>A tick runs the frame pipeline or stops the pump\<close>

lemma detectImage_begin_no_rejection:
  assumes "find rejects (pipeline_calls args source) = None"
  shows "detectImage_begin rejects source args w =
     (Inr \<lparr>ctx_input = \<lparr>blob_handle = fresh w + 3, blob_of = padded_pixels source,
                          blob_width = nth_opt (drop 2 (inputShape args)) 0,
                          blob_height = nth_opt (drop 2 (inputShape args)) 1\<rparr>,
            ctx_xRatio = js_div (Fin (real (maxSize_of source))) (Fin (real (src_width source))),
            ctx_yRatio = js_div (Fin (real (maxSize_of source))) (Fin (real (src_height source))),
            ctx_tensor = \<lparr>it_blob = \<lparr>blob_handle = fresh w + 3, blob_of = padded_pixels source,
                                     blob_width = nth_opt (drop 2 (inputShape args)) 0,
                                     blob_height = nth_opt (drop 2 (inputShape args)) 1\<rparr>,
                          it_dims = inputShape args\<rparr>,
            ctx_config = map fround [topk args, iouThreshold args, scoreThreshold args]\<rparr>,
      w\<lparr>trace := trace w @ [Alloc (fresh w), Alloc (fresh w + 1), Alloc (fresh w + 2),
            Alloc (fresh w + 3), Delete (fresh w), Delete (fresh w + 1), Delete (fresh w + 2),
            NetRun \<lparr>it_blob = \<lparr>blob_handle = fresh w + 3, blob_of = padded_pixels source,
                                blob_width = nth_opt (drop 2 (inputShape args)) 0,
                                blob_height = nth_opt (drop 2 (inputShape args)) 1\<rparr>,
                     it_dims = inputShape args\<rparr>],
        fresh := fresh w + 4\<rparr>)"
proof -
  have "\<forall>c \<in> set (pipeline_calls args source). \<not> rejects c"
    using assms by (simp add: find_None_iff)
  then show ?thesis
    by (simp add: pipeline_calls_def Let_def detectImage_begin_cases preprocessing_cases
        maxSize_of_def emit_def del: fround.simps list.map)
qed

lemma detectImage_begin_rejection:
  assumes "find rejects (pipeline_calls args source) = Some c"
  shows "\<exists>ys w'. detectImage_begin rejects source args w = (Inl (LibraryException c), w') \<and>
           trace w' = trace w @ ys \<and> set ys \<subseteq> range Alloc \<union> range Delete \<and>
           scheduled w' = scheduled w"
proof -
  obtain r w' where b: "detectImage_begin rejects source args w = (r, w')"
    by (cases "detectImage_begin rejects source args w") auto
  have r: "r = Inl (LibraryException c)"
    using assms b
    by (auto simp: pipeline_calls_def Let_def detectImage_begin_cases preprocessing_cases
        maxSize_of_def split: if_splits)
  have s: "scheduled w' = scheduled w" using b by (rule detectImage_begin_scheduled)
  have t: "\<exists>ys. trace w' = trace w @ ys \<and> set ys \<subseteq> range Alloc \<union> range Delete"
    using assms b
    by (auto simp: pipeline_calls_def Let_def detectImage_begin_cases preprocessing_cases
        maxSize_of_def allocs_def split: if_splits)
  show ?thesis using b r s t by blast
qed

lemma detect_runs_frame_pipeline:
  assumes "\<not> (videoWidth v = 0 \<and> srcObject v = None)"
    and "scheduled (pw q) = 0" and "awaiting q = []"
  shows "runs_frame_pipeline rejects args v (pw q) (detect rejects args v q)"
proof -
  define w1 where "w1 = emit (DrawFrame (videoWidth v) (videoHeight v)) (pw q)"
  have cap: "captureVideo v None (pw q) = (frame_source v, w1)"
    by (simp add: captureVideo_def w1_def frame_source_def Let_def)
  have w1: "trace w1 = trace (pw q) @ [DrawFrame (videoWidth v) (videoHeight v)]"
      "fresh w1 = fresh (pw q)" "scheduled w1 = 0"
    using assms(2) by (simp_all add: w1_def emit_def)
  have d: "detect rejects args v q =
      (case detectImage_begin rejects (frame_source v) args w1 of
         (Inl e, w2) \<Rightarrow> q\<lparr>pw := emit (Unhandled e) w2\<rparr>
       | (Inr ctx, w2) \<Rightarrow> q\<lparr>pw := w2, awaiting := awaiting q @ [(AwaitNet, ctx)]\<rparr>)"
    using assms(1) by (auto simp: detect_def cap)
  have m: "maxSize_of (frame_source v) = max (videoHeight v) (videoWidth v)"
    and sw: "src_width (frame_source v) = videoWidth v"
    and sh: "src_height (frame_source v) = videoHeight v"
    and sp: "src_pixel (frame_source v) = drawn v (videoWidth v) (videoHeight v)"
    by (simp_all add: maxSize_of_def frame_source_def)
  show ?thesis
  proof (cases "find rejects (pipeline_calls args (frame_source v))")
    case None
    note b = detectImage_begin_no_rejection [OF None, of w1]
    have px: "\<forall>i<max (videoHeight v) (videoWidth v). \<forall>j<max (videoHeight v) (videoWidth v).
        padded_pixels (frame_source v) ! i ! j =
          (if i < videoHeight v \<and> j < videoWidth v
           then rgba2bgr (drawn v (videoWidth v) (videoHeight v) i j) else (0, 0, 0))"
      using padded_pixels_nth [of _ "frame_source v"] unfolding m sw sh sp by blast
    have len: "length (padded_pixels (frame_source v)) = max (videoHeight v) (videoWidth v)"
      using padded_pixels_length [of "frame_source v"] unfolding m .
    show ?thesis
      unfolding runs_frame_pipeline_def Let_def None d b
      using px len assms(3) w1
      by (simp add: m sw sh del: fround.simps list.map)
  next
    case (Some c)
    from detectImage_begin_rejection [OF Some, of w1]
    obtain ys w2 where b: "detectImage_begin rejects (frame_source v) args w1
          = (Inl (LibraryException c), w2)"
        "trace w2 = trace w1 @ ys" "set ys \<subseteq> range Alloc \<union> range Delete"
        "scheduled w2 = scheduled w1"
      by blast
    have "trace (pw (detect rejects args v q)) =
        trace (pw q) @ DrawFrame (videoWidth v) (videoHeight v) # ys
          @ [Unhandled (LibraryException c)]"
      unfolding d b(1) by (simp add: emit_def b(2) w1(1))
    moreover have "scheduled (pw (detect rejects args v q)) = 0"
        "awaiting (detect rejects args v q) = []"
      unfolding d b(1) using b(4) w1(3) assms(3) by (simp_all add: emit_def)
    ultimately show ?thesis
      unfolding runs_frame_pipeline_def Let_def Some using b(3) by auto
  qed
qed

lemma runs_frame_pipeline_world:
  assumes "trace w = trace w'" and "fresh w = fresh w'"
  shows "runs_frame_pipeline rejects args v w after
       = runs_frame_pipeline rejects args v w' after"
  unfolding runs_frame_pipeline_def assms ..

text \<open>
  Claim C6. At a tick of the pump, be it the first call of \<open>detect\<close> or a frame that the
  pump has requested, if the video reports \<open>videoWidth = 0\<close> and has no stream, the pump
  clears the canvas, requests no frame, has no inference in flight, and no later event
  changes it: it has stopped. Otherwise it does not clear the canvas and runs the frame
  pipeline: it draws the frame of the video, preprocesses it, and calls the network with
  the tensor of the frame, or leaves unhandled the failure of the first library call
  that throws.
\<close>

theorem pump_stops_without_source:
  assumes "p = pump_run rejects args evs (detectVideo rejects args v0)"
    and "0 < scheduled (pw p)"
  shows "(videoWidth v = 0 \<and> srcObject v = None \<longrightarrow>
            trace (pw (pump_step rejects args (AnimationFrame v) p)) = trace (pw p) @ [ClearRect]
            \<and> scheduled (pw (pump_step rejects args (AnimationFrame v) p)) = 0
            \<and> awaiting (pump_step rejects args (AnimationFrame v) p) = []
            \<and> (\<forall>evs'. pump_run rejects args evs' (pump_step rejects args (AnimationFrame v) p)
                  = pump_step rejects args (AnimationFrame v) p)
            \<and> trace (pw (detectVideo rejects args v)) = [ClearRect]
            \<and> (\<forall>evs'. pump_run rejects args evs' (detectVideo rejects args v)
                  = detectVideo rejects args v))
       \<and> (\<not> (videoWidth v = 0 \<and> srcObject v = None) \<longrightarrow>
            (\<exists>rest. trace (pw (pump_step rejects args (AnimationFrame v) p))
                = trace (pw p) @ DrawFrame (videoWidth v) (videoHeight v) # rest
              \<and> ClearRect \<notin> set rest)
            \<and> (\<exists>rest. trace (pw (detectVideo rejects args v))
                = DrawFrame (videoWidth v) (videoHeight v) # rest \<and> ClearRect \<notin> set rest)
            \<and> runs_frame_pipeline rejects args v (pw p)
                (pump_step rejects args (AnimationFrame v) p)
            \<and> runs_frame_pipeline rejects args v new_world (detectVideo rejects args v))"
proof -
  have ok: "pump_ok p" unfolding assms(1) by (rule reachable_ok)
  define q where "q = p\<lparr>pw := (pw p)\<lparr>scheduled := 0\<rparr>\<rparr>"
  have step: "pump_step rejects args (AnimationFrame v) p = detect rejects args v q"
    unfolding q_def using ok assms(2) by (rule tick_due(1))
  have q: "scheduled (pw q) = 0" "awaiting q = []" "trace (pw q) = trace (pw p)"
      "fresh (pw q) = fresh (pw p)"
    using tick_due(2) [OF ok assms(2)] by (simp_all add: q_def)
  define q0 where "q0 = \<lparr>pw = new_world, awaiting = []\<rparr>"
  have first: "detectVideo rejects args v = detect rejects args v q0"
    by (simp add: detectVideo_def q0_def)
  have q0: "scheduled (pw q0) = 0" "awaiting q0 = []" "trace (pw q0) = []" "pw q0 = new_world"
    by (simp_all add: q0_def new_world_def)
  show ?thesis
  proof (cases "videoWidth v = 0 \<and> srcObject v = None")
    case True
    note a = detect_stop_stuck [OF True q(1,2), of rejects args]
    note b = detect_stop_stuck [OF True q0(1,2), of rejects args]
    show ?thesis
      unfolding step first using True a b q(3) q0(3) by simp
  next
    case False
    have a: "\<exists>rest. trace (pw (detect rejects args v q))
                = trace (pw p) @ DrawFrame (videoWidth v) (videoHeight v) # rest
              \<and> ClearRect \<notin> set rest"
      using detect_run(3) [OF False, of rejects args q] q(3) by auto
    have b: "\<exists>rest. trace (pw (detect rejects args v q0))
                = DrawFrame (videoWidth v) (videoHeight v) # rest \<and> ClearRect \<notin> set rest"
      using detect_run(3) [OF False, of rejects args q0] q0(3) by auto
    have c: "runs_frame_pipeline rejects args v (pw p) (detect rejects args v q)"
      using detect_runs_frame_pipeline [OF False q(1,2), of rejects args]
        runs_frame_pipeline_world [OF q(3,4)] by simp
    have d: "runs_frame_pipeline rejects args v new_world (detect rejects args v q0)"
      using detect_runs_frame_pipeline [OF False q0(1,2), of rejects args] q0(4) by simp
    show ?thesis
      unfolding step first using False a b c d by blast
  qed
qed

lemma example_pump_start_reads:
  "detectVideo rejects_empty_reads example_args example_video
     = detectVideo rejects_nothing example_args example_video"
proof -
  have f: "find rejects_empty_reads (pipeline_calls example_args small_source) = None"
      "find rejects_nothing (pipeline_calls example_args small_source) = None"
    by (simp_all add: pipeline_calls_def small_source_def rejects_nothing_def Let_def)
  have cap: "captureVideo example_video None new_world =
      (small_source, emit (DrawFrame 3 2) new_world)"
    by (simp add: captureVideo_def example_video_def small_source_def Let_def)
  have v: "\<not> (videoWidth example_video = 0 \<and> srcObject example_video = None)"
    by (simp add: example_video_def)
  show ?thesis
    using v
    by (simp add: detectVideo_def detect_def cap detectImage_begin_no_rejection [OF f(1)]
        detectImage_begin_no_rejection [OF f(2)] del: fround.simps list.map)
qed

lemma example_pump_scheduled_reads:
  "pump_run rejects_empty_reads example_args
     [Settled 0 (Inr example_selected), Settled 0 (Inr example_selected)]
     (detectVideo rejects_empty_reads example_args example_video)
   = pump_run rejects_nothing example_args
     [Settled 0 (Inr example_selected), Settled 0 (Inr example_selected)]
     (detectVideo rejects_nothing example_args example_video)"
  by (simp add: example_pump_start_reads pump_step_def)

theorem pump_stops_without_source_witness:
  "0 < scheduled (pw (pump_run rejects_nothing example_args
        [Settled 0 (Inr example_selected), Settled 0 (Inr example_selected)]
        (detectVideo rejects_nothing example_args example_video)))
   \<and> videoWidth closed_video = 0 \<and> srcObject closed_video = None
   \<and> scheduled (pw (pump_step rejects_nothing example_args (AnimationFrame closed_video)
        (pump_run rejects_nothing example_args
          [Settled 0 (Inr example_selected), Settled 0 (Inr example_selected)]
          (detectVideo rejects_nothing example_args example_video)))) = 0
   \<and> trace (pw (detectVideo rejects_nothing example_args closed_video)) = [ClearRect]
   \<and> (\<exists>ctx. awaiting (pump_step rejects_nothing example_args (AnimationFrame example_video)
          (pump_run rejects_nothing example_args
            [Settled 0 (Inr example_selected), Settled 0 (Inr example_selected)]
            (detectVideo rejects_nothing example_args example_video))) = [(AwaitNet, ctx)]
        \<and> trace (pw (pump_step rejects_nothing example_args (AnimationFrame example_video)
          (pump_run rejects_nothing example_args
            [Settled 0 (Inr example_selected), Settled 0 (Inr example_selected)]
            (detectVideo rejects_nothing example_args example_video))))
          = trace (pw (pump_run rejects_nothing example_args
              [Settled 0 (Inr example_selected), Settled 0 (Inr example_selected)]
              (detectVideo rejects_nothing example_args example_video)))
            @ [DrawFrame 3 2, Alloc 4, Alloc 5, Alloc 6, Alloc 7, Delete 4, Delete 5, Delete 6,
               NetRun (ctx_tensor ctx)]
        \<and> ctx_yRatio ctx = js_div (Fin 3) (Fin 2))
   \<and> (\<exists>ys. trace (pw (detectVideo rejects_empty_reads example_args pending_video))
         = DrawFrame 0 0 # ys @ [Unhandled (LibraryException (Imread 0 0))])"
proof -
  let ?P = "pump_run rejects_nothing example_args
        [Settled 0 (Inr example_selected), Settled 0 (Inr example_selected)]
        (detectVideo rejects_nothing example_args example_video)"
  let ?R = "pump_run rejects_empty_reads example_args
        [Settled 0 (Inr example_selected), Settled 0 (Inr example_selected)]
        (detectVideo rejects_empty_reads example_args example_video)"
  have due: "0 < scheduled (pw ?P)" unfolding example_pump_scheduled by simp
  have dueR: "0 < scheduled (pw ?R)"
    unfolding example_pump_scheduled_reads example_pump_scheduled by simp
  have closed: "videoWidth closed_video = 0 \<and> srcObject closed_video = None"
    by (simp add: closed_video_def)
  have running: "\<not> (videoWidth example_video = 0 \<and> srcObject example_video = None)"
    by (simp add: example_video_def)
  have pending: "\<not> (videoWidth pending_video = 0 \<and> srcObject pending_video = None)"
    by (simp add: pending_video_def)
  note stop = pump_stops_without_source [OF refl due, of closed_video]
  note run = pump_stops_without_source [OF refl due, of example_video]
  note thrown = pump_stops_without_source [OF refl dueR, of pending_video]
  have fP: "fresh (pw ?P) = 4" unfolding example_pump_scheduled by simp
  have calls: "find rejects_nothing (pipeline_calls example_args (frame_source example_video))
      = None"
    by (simp add: pipeline_calls_def frame_source_def example_video_def rejects_nothing_def
        Let_def)
  have callsR: "find rejects_empty_reads
      (pipeline_calls example_args (frame_source pending_video)) = Some (Imread 0 0)"
    by (simp add: pipeline_calls_def frame_source_def pending_video_def Let_def)
  have vs: "videoWidth example_video = 3" "videoHeight example_video = 2"
      "videoWidth pending_video = 0" "videoHeight pending_video = 0"
    by (simp_all add: example_video_def pending_video_def)
  have "runs_frame_pipeline rejects_nothing example_args example_video (pw ?P)
      (pump_step rejects_nothing example_args (AnimationFrame example_video) ?P)"
    using run running by blast
  then have a: "\<exists>ctx. awaiting (pump_step rejects_nothing example_args
          (AnimationFrame example_video) ?P) = [(AwaitNet, ctx)]
        \<and> trace (pw (pump_step rejects_nothing example_args (AnimationFrame example_video) ?P))
          = trace (pw ?P)
            @ [DrawFrame 3 2, Alloc 4, Alloc 5, Alloc 6, Alloc 7, Delete 4, Delete 5, Delete 6,
               NetRun (ctx_tensor ctx)]
        \<and> ctx_yRatio ctx = js_div (Fin 3) (Fin 2)"
    unfolding runs_frame_pipeline_def Let_def calls fP vs by auto
  have "runs_frame_pipeline rejects_empty_reads example_args pending_video new_world
      (detectVideo rejects_empty_reads example_args pending_video)"
    using thrown pending by blast
  then have b: "\<exists>ys. trace (pw (detectVideo rejects_empty_reads example_args pending_video))
         = DrawFrame 0 0 # ys @ [Unhandled (LibraryException (Imread 0 0))]"
    unfolding runs_frame_pipeline_def Let_def callsR vs by (auto simp: new_world_def)
  show ?thesis using stop due closed a b by blast
qed

end
